theory Spec2Isabelle
  imports Main "HOL-Library.Word" "HOL-Library.Monad_Syntax"
begin

unbundle bit_operations_syntax

section \<open>The CD-ROM driver of KallistiOS (cdrom.c)\<close>

subsection \<open>Table of contents\<close>

text \<open>
  \<^verbatim>\<open>CDROM_TOC\<close> of dc/cdrom.h: 99 track entries, the first and the last track and the
  lead-out sector, each a 32-bit word. The field \<^verbatim>\<open>last\<close> is \<open>last_track\<close> here.
\<close>

record CDROM_TOC =
  entry :: "32 word list"
  first :: "32 word"
  last_track :: "32 word"
  leadout_sector :: "32 word"

text \<open>
  The accessor macros of dc/cdrom.h (the header is not among the sources; these are the
  macros of the KallistiOS header): the track number is bits 16..23 of a descriptor, the
  control field bits 28..31, the LBA bits 0..23.
\<close>

definition TOC_LBA :: "32 word \<Rightarrow> 32 word" where
  "TOC_LBA n = n AND 0x00ffffff"

definition TOC_CTRL :: "32 word \<Rightarrow> 32 word" where
  "TOC_CTRL n = drop_bit 28 (n AND 0xf0000000)"

definition TOC_TRACK :: "32 word \<Rightarrow> 32 word" where
  "TOC_TRACK n = drop_bit 16 (n AND 0x00ff0000)"

text \<open>
  The loop \<^verbatim>\<open>for(i = last; i >= first; i--)\<close> of \<^verbatim>\<open>cdrom_locate_data_track\<close>; \<open>i\<close> and
  \<open>first\<close> are C ints.
\<close>

function locate_loop :: "CDROM_TOC \<Rightarrow> int \<Rightarrow> int \<Rightarrow> 32 word" where
  "locate_loop toc first_trk i =
     (if i \<ge> first_trk then
        (if TOC_CTRL (entry toc ! nat (i - 1)) = 4 then TOC_LBA (entry toc ! nat (i - 1))
         else locate_loop toc first_trk (i - 1))
      else 0)"
  by pat_completeness auto
termination
  by (relation "measure (\<lambda>(toc, f, i). nat (i + 1 - f))") auto

definition cdrom_locate_data_track :: "CDROM_TOC \<Rightarrow> 32 word" where
  "cdrom_locate_data_track toc =
     (let first_trk = uint (TOC_TRACK (first toc));
          last_trk = uint (TOC_TRACK (last_track toc))
      in if first_trk < 1 \<or> last_trk > 99 \<or> first_trk > last_trk then 0
         else locate_loop toc first_trk last_trk)"

subsection \<open>Constants of the headers\<close>

text \<open>
  Modelled from the spec: the headers dc/cdrom.h and arch/memory.h are not among the
  sources. The spec names the result codes (OK, no-disc, disc-changed, generic system
  error, no-active-command, timeout), the command responses (no-command-active, busy,
  processing, completed, streaming, or a raw negative error) and the four transfer modes;
  the numbers are those of the KallistiOS headers. The theorems below depend on them only
  through their names, their being distinct, the responses being non-negative and the
  modes differing from the "no stream" value -1.
\<close>

definition ERR_OK :: int where "ERR_OK = 0"
definition ERR_NO_DISC :: int where "ERR_NO_DISC = 1"
definition ERR_DISC_CHG :: int where "ERR_DISC_CHG = 2"
definition ERR_SYS :: int where "ERR_SYS = 3"
definition ERR_ABORTED :: int where "ERR_ABORTED = 4"
definition ERR_NO_ACTIVE :: int where "ERR_NO_ACTIVE = 5"
definition ERR_TIMEOUT :: int where "ERR_TIMEOUT = 6"

definition FAILED :: int where "FAILED = - 1"
definition NO_ACTIVE :: int where "NO_ACTIVE = 0"
definition PROCESSING :: int where "PROCESSING = 1"
definition COMPLETED :: int where "COMPLETED = 2"
definition STREAMING :: int where "STREAMING = 3"
definition BUSY :: int where "BUSY = 4"

definition CDROM_READ_PIO :: int where "CDROM_READ_PIO = 0"
definition CDROM_READ_DMA :: int where "CDROM_READ_DMA = 1"
definition CDROM_READ_PIO_IRQ :: int where "CDROM_READ_PIO_IRQ = 2"
definition CDROM_READ_DMA_IRQ :: int where "CDROM_READ_DMA_IRQ = 3"

definition CMD_PIOREAD :: int where "CMD_PIOREAD = 16"
definition CMD_DMAREAD :: int where "CMD_DMAREAD = 17"
definition CMD_DMAREAD_STREAM :: int where "CMD_DMAREAD_STREAM = 28"
definition CMD_PIOREAD_STREAM :: int where "CMD_PIOREAD_STREAM = 37"
definition CMD_MAX :: int where "CMD_MAX = 47"

definition MEM_AREA_CACHE_MASK :: "32 word" where "MEM_AREA_CACHE_MASK = 0x1fffffff"
definition MEM_AREA_P2_BASE :: "32 word" where "MEM_AREA_P2_BASE = 0xa0000000"

lemmas err_defs =
  ERR_OK_def ERR_NO_DISC_def ERR_DISC_CHG_def ERR_SYS_def ERR_ABORTED_def ERR_NO_ACTIVE_def
  ERR_TIMEOUT_def

lemmas resp_defs =
  FAILED_def NO_ACTIVE_def PROCESSING_def COMPLETED_def STREAMING_def BUSY_def

lemmas mode_defs =
  CDROM_READ_PIO_def CDROM_READ_DMA_def CDROM_READ_PIO_IRQ_def CDROM_READ_DMA_IRQ_def

lemmas cmd_defs =
  CMD_PIOREAD_def CMD_DMAREAD_def CMD_DMAREAD_STREAM_def CMD_PIOREAD_STREAM_def CMD_MAX_def

subsection \<open>The world outside the driver\<close>

text \<open>
  The firmware system calls, the millisecond clock and the interrupt sources are not part
  of cdrom.c. They are a script: for each call that returns something the driver looks
  at, the list of the values it will return, in order. A call pops the head of its list
  and appends itself, with its arguments and its result, to \<open>trace\<close>; a call on an empty
  list has no answer in the script, and the driver function that made it yields \<open>None\<close>.
  Quantifying over all scripts covers every behaviour of the firmware along a run.

  The status array written by \<^verbatim>\<open>syscall_gdrom_check_command\<close> is given by the script as
  the four words the array holds after the call.
\<close>

record gdc_status =
  err1 :: int
  err2 :: int
  transferred :: int
  ata_status :: int

datatype irq = Vblank | G1_dma

datatype call =
    Send_command int "int list" int
  | Exec_server
  | Check_command int int
  | Abort_command int
  | Gdrom_reset
  | Gdrom_init
  | Dma_transfer int "32 word" "32 word" int
  | Pio_transfer int "32 word" "32 word" int
  | Dma_check int int "32 word"
  | Pio_check int int "32 word"
  | Pio_callback "32 word" "32 word"
  | Dma_callback "32 word" "32 word"
  | Stream_cb "32 word" "32 word"
  | Old_dma_irq
  | Dcache_inval_range "32 word" "32 word"
  | Timer_ms_gettime64 "64 word"
  | Thd_pass
  | Thd_schedule
  | Dbglog

record world =
  send_results :: "int list"
  check_results :: "(int \<times> gdc_status) list"
  dma_transfer_results :: "int list"
  pio_transfer_results :: "int list"
  dma_check_results :: "(int \<times> 32 word) list"
  pio_check_results :: "(int \<times> 32 word) list"
  timer_readings :: "64 word list"
  interrupts :: "irq list"
  thd_current :: "32 word"
  irq_inside_int :: bool
  trace :: "call list"

definition emit :: "call \<Rightarrow> world \<Rightarrow> world" where
  "emit c w = w\<lparr>trace := trace w @ [c]\<rparr>"

definition syscall_gdrom_send_command :: "int \<Rightarrow> int list \<Rightarrow> world \<Rightarrow> (int \<times> world) option" where
  "syscall_gdrom_send_command cmd param w =
     (case send_results w of
        [] \<Rightarrow> None
      | hnd # rest \<Rightarrow> Some (hnd, emit (Send_command cmd param hnd) (w\<lparr>send_results := rest\<rparr>)))"

definition syscall_gdrom_exec_server :: "world \<Rightarrow> world" where
  "syscall_gdrom_exec_server w = emit Exec_server w"

definition syscall_gdrom_check_command ::
  "int \<Rightarrow> world \<Rightarrow> ((int \<times> gdc_status) \<times> world) option" where
  "syscall_gdrom_check_command hnd w =
     (case check_results w of
        [] \<Rightarrow> None
      | r # rest \<Rightarrow> Some (r, emit (Check_command hnd (fst r)) (w\<lparr>check_results := rest\<rparr>)))"

definition syscall_gdrom_abort_command :: "int \<Rightarrow> world \<Rightarrow> world" where
  "syscall_gdrom_abort_command hnd w = emit (Abort_command hnd) w"

definition syscall_gdrom_reset :: "world \<Rightarrow> world" where
  "syscall_gdrom_reset w = emit Gdrom_reset w"

definition syscall_gdrom_init :: "world \<Rightarrow> world" where
  "syscall_gdrom_init w = emit Gdrom_init w"

definition syscall_gdrom_dma_transfer ::
  "int \<Rightarrow> 32 word \<times> 32 word \<Rightarrow> world \<Rightarrow> (int \<times> world) option" where
  "syscall_gdrom_dma_transfer hnd params w =
     (case dma_transfer_results w of
        [] \<Rightarrow> None
      | rs # rest \<Rightarrow>
          Some (rs, emit (Dma_transfer hnd (fst params) (snd params) rs)
                      (w\<lparr>dma_transfer_results := rest\<rparr>)))"

definition syscall_gdrom_pio_transfer ::
  "int \<Rightarrow> 32 word \<times> 32 word \<Rightarrow> world \<Rightarrow> (int \<times> world) option" where
  "syscall_gdrom_pio_transfer hnd params w =
     (case pio_transfer_results w of
        [] \<Rightarrow> None
      | rs # rest \<Rightarrow>
          Some (rs, emit (Pio_transfer hnd (fst params) (snd params) rs)
                      (w\<lparr>pio_transfer_results := rest\<rparr>)))"

definition syscall_gdrom_dma_check :: "int \<Rightarrow> world \<Rightarrow> ((int \<times> 32 word) \<times> world) option" where
  "syscall_gdrom_dma_check hnd w =
     (case dma_check_results w of
        [] \<Rightarrow> None
      | r # rest \<Rightarrow>
          Some (r, emit (Dma_check hnd (fst r) (snd r)) (w\<lparr>dma_check_results := rest\<rparr>)))"

definition syscall_gdrom_pio_check :: "int \<Rightarrow> world \<Rightarrow> ((int \<times> 32 word) \<times> world) option" where
  "syscall_gdrom_pio_check hnd w =
     (case pio_check_results w of
        [] \<Rightarrow> None
      | r # rest \<Rightarrow>
          Some (r, emit (Pio_check hnd (fst r) (snd r)) (w\<lparr>pio_check_results := rest\<rparr>)))"

definition syscall_gdrom_pio_callback :: "32 word \<Rightarrow> 32 word \<Rightarrow> world \<Rightarrow> world" where
  "syscall_gdrom_pio_callback cb param w = emit (Pio_callback cb param) w"

definition syscall_gdrom_dma_callback :: "32 word \<Rightarrow> 32 word \<Rightarrow> world \<Rightarrow> world" where
  "syscall_gdrom_dma_callback cb param w = emit (Dma_callback cb param) w"

definition timer_ms_gettime64 :: "world \<Rightarrow> (64 word \<times> world) option" where
  "timer_ms_gettime64 w =
     (case timer_readings w of
        [] \<Rightarrow> None
      | t # rest \<Rightarrow> Some (t, emit (Timer_ms_gettime64 t) (w\<lparr>timer_readings := rest\<rparr>)))"

definition thd_pass :: "world \<Rightarrow> world" where
  "thd_pass w = emit Thd_pass w"

definition thd_schedule :: "world \<Rightarrow> world" where
  "thd_schedule w = emit Thd_schedule w"

definition dbglog :: "world \<Rightarrow> world" where
  "dbglog w = emit Dbglog w"

definition dcache_inval_range :: "32 word \<Rightarrow> 32 word \<Rightarrow> world \<Rightarrow> world" where
  "dcache_inval_range start count w = emit (Dcache_inval_range start count) w"

subsection \<open>The state of the driver\<close>

text \<open>
  The static variables of cdrom.c. The two semaphores are their counts; pointers
  (\<^verbatim>\<open>stream_cb\<close>, \<^verbatim>\<open>stream_cb_param\<close>, \<^verbatim>\<open>dma_thd\<close>, \<^verbatim>\<open>old_dma_irq.hdl\<close>) are 32-bit
  addresses, 0 being \<^verbatim>\<open>NULL\<close>. The device mutex \<^verbatim>\<open>_g1_ata_mutex\<close> has a subsection of
  its own below.
\<close>

record cdrom_state =
  cmd_hnd :: int
  cmd_done :: nat
  cmd_in_progress :: bool
  cmd_response :: int
  cmd_status :: gdc_status
  stream_mode :: int
  stream_cb :: "32 word"
  stream_cb_param :: "32 word"
  dma_in_progress :: bool
  dma_blocking :: bool
  dma_thd :: "32 word"
  dma_done :: nat
  old_dma_irq_hdl :: "32 word"
  cur_sector_size :: int

datatype semaphore = Cmd_done | Dma_done

definition sem_count :: "semaphore \<Rightarrow> cdrom_state \<Rightarrow> nat" where
  "sem_count sm s = (case sm of Cmd_done \<Rightarrow> cmd_done s | Dma_done \<Rightarrow> dma_done s)"

definition sem_signal :: "semaphore \<Rightarrow> cdrom_state \<Rightarrow> cdrom_state" where
  "sem_signal sm s =
     (case sm of
        Cmd_done \<Rightarrow> s\<lparr>cmd_done := cmd_done s + 1\<rparr>
      | Dma_done \<Rightarrow> s\<lparr>dma_done := dma_done s + 1\<rparr>)"

definition sem_take :: "semaphore \<Rightarrow> cdrom_state \<Rightarrow> cdrom_state" where
  "sem_take sm s =
     (case sm of
        Cmd_done \<Rightarrow> s\<lparr>cmd_done := cmd_done s - 1\<rparr>
      | Dma_done \<Rightarrow> s\<lparr>dma_done := dma_done s - 1\<rparr>)"

subsection \<open>The interrupt handlers\<close>

text \<open>\<^verbatim>\<open>cdrom_vblank\<close>: the vertical-blank hook.\<close>

definition cdrom_vblank :: "cdrom_state \<Rightarrow> world \<Rightarrow> (cdrom_state \<times> world) option" where
  "cdrom_vblank s w =
     (if \<not> cmd_in_progress s then Some (s, w)
      else do {
        ((resp, st), w1) \<leftarrow> syscall_gdrom_check_command (cmd_hnd s) (syscall_gdrom_exec_server w);
        let s1 = s\<lparr>cmd_response := resp, cmd_status := st\<rparr>;
        if resp \<noteq> PROCESSING \<and> resp \<noteq> BUSY then
          let s2 = s1\<lparr>cmd_in_progress := False\<rparr>;
              s3 = (if dma_in_progress s2 then
                      (let s4 = s2\<lparr>dma_in_progress := False\<rparr>
                       in if dma_blocking s4 then sem_signal Dma_done (s4\<lparr>dma_blocking := False\<rparr>)
                          else s4)
                    else sem_signal Cmd_done s2)
          in Some (s3, thd_schedule w1)
        else Some (s1, w1)
      })"

text \<open>
  \<^verbatim>\<open>g1_dma_irq_hnd\<close>: the handler of the three G1 DMA events. It never locks; its
  \<^verbatim>\<open>mutex_unlock_as_thread\<close> for the owner of a non-blocking transfer is an unlock, and
  nothing of the handler depends on it.
\<close>

definition g1_dma_irq_hnd :: "cdrom_state \<Rightarrow> world \<Rightarrow> (cdrom_state \<times> world) option" where
  "g1_dma_irq_hnd s w = do {
     (s5, w5) \<leftarrow>
       (if dma_in_progress s then do {
          let s1 = s\<lparr>dma_in_progress := False\<rparr>;
          (s2, w1) \<leftarrow>
            (if cmd_in_progress s1 then do {
               ((resp, st), w1) \<leftarrow>
                 syscall_gdrom_check_command (cmd_hnd s1) (syscall_gdrom_exec_server w);
               Some (s1\<lparr>cmd_in_progress := False, cmd_response := resp, cmd_status := st\<rparr>, w1)
             }
             else Some (s1, w));
          let (s3, w2) =
            (if dma_blocking s2 then
               (sem_signal Dma_done (s2\<lparr>dma_blocking := False\<rparr>), thd_schedule w1)
             else if dma_thd s2 \<noteq> 0 then (s2\<lparr>dma_thd := 0\<rparr>, w1)
             else (s2, w1));
          let w3 =
            (if stream_mode s3 \<noteq> - 1 then
               syscall_gdrom_dma_callback (stream_cb s3) (stream_cb_param s3) w2
             else w2);
          Some (s3, w3)
        }
        else Some (s, w));
     Some (s5, if old_dma_irq_hdl s5 \<noteq> 0 then emit Old_dma_irq w5 else w5)
   }"

definition deliver :: "irq \<Rightarrow> cdrom_state \<Rightarrow> world \<Rightarrow> (cdrom_state \<times> world) option" where
  "deliver i s w = (case i of Vblank \<Rightarrow> cdrom_vblank s w | G1_dma \<Rightarrow> g1_dma_irq_hnd s w)"

lemma emit_fields [simp]:
  "send_results (emit c w) = send_results w"
  "check_results (emit c w) = check_results w"
  "dma_transfer_results (emit c w) = dma_transfer_results w"
  "pio_transfer_results (emit c w) = pio_transfer_results w"
  "dma_check_results (emit c w) = dma_check_results w"
  "pio_check_results (emit c w) = pio_check_results w"
  "timer_readings (emit c w) = timer_readings w"
  "interrupts (emit c w) = interrupts w"
  "thd_current (emit c w) = thd_current w"
  "irq_inside_int (emit c w) = irq_inside_int w"
  "trace (emit c w) = trace w @ [c]"
  by (simp_all add: emit_def)

lemmas log_defs =
  syscall_gdrom_exec_server_def syscall_gdrom_abort_command_def syscall_gdrom_reset_def
  syscall_gdrom_init_def syscall_gdrom_pio_callback_def syscall_gdrom_dma_callback_def
  thd_pass_def thd_schedule_def dbglog_def dcache_inval_range_def

lemma check_command_pops:
  "syscall_gdrom_check_command hnd w = Some (r, w') \<Longrightarrow>
   check_results w = r # check_results w' \<and> interrupts w' = interrupts w"
  by (auto simp: syscall_gdrom_check_command_def split: list.splits)

lemma gettime_keeps:
  "timer_ms_gettime64 w = Some (t, w') \<Longrightarrow>
   check_results w' = check_results w \<and> interrupts w' = interrupts w"
  by (auto simp: timer_ms_gettime64_def split: list.splits)

lemma deliver_keeps_interrupts:
  "deliver i s w = Some (s', w') \<Longrightarrow> interrupts w' = interrupts w"
  by (auto simp: deliver_def cdrom_vblank_def g1_dma_irq_hnd_def log_defs Let_def
      dest!: check_command_pops split: irq.splits if_splits Option.bind_splits prod.splits)

text \<open>
  \<^verbatim>\<open>sem_wait\<close>: a positive count is taken at once. Otherwise the caller blocks, and what
  runs meanwhile is the interrupt handlers, in the order the script gives; the caller
  resumes once one of them has signalled the semaphore. Interrupts are delivered only
  here, while the one thread of the model is blocked.
\<close>

function sem_wait :: "semaphore \<Rightarrow> cdrom_state \<Rightarrow> world \<Rightarrow> (cdrom_state \<times> world) option" where
  "sem_wait sm s w =
     (if 0 < sem_count sm s then Some (sem_take sm s, w)
      else (case interrupts w of
              [] \<Rightarrow> None
            | i # rest \<Rightarrow>
                (case deliver i s (w\<lparr>interrupts := rest\<rparr>) of
                   None \<Rightarrow> None
                 | Some (s', w') \<Rightarrow> sem_wait sm s' w')))"
  by pat_completeness auto
termination
  by (relation "measure (\<lambda>(sm, s, w). length (interrupts w))")
     (auto dest!: deliver_keeps_interrupts)

subsection \<open>The device mutex\<close>

text \<open>
  Modelled from the spec: kos/mutex.h and the mutex implementation are not among the
  sources. \<^verbatim>\<open>_g1_ata_mutex\<close> is initialised with the plain \<^verbatim>\<open>MUTEX_INITIALIZER\<close>; the spec
  has it as one mutual-exclusion lock, and names what a blocking acquisition gives when
  the mutex is already held: a deadlock. The code agrees: \<^verbatim>\<open>cdrom_stream_stop\<close> unlocks
  before it calls \<^verbatim>\<open>cdrom_abort_cmd\<close>, and \<^verbatim>\<open>cdrom_abort_cmd\<close> skips its own lock where its
  comment says the mutex is already locked.

  The model is one thread of control, so the state of the lock is whether that thread
  holds it. It is passed to the code that locks: \<^verbatim>\<open>mutex_lock\<close> takes it and yields the
  new one, or \<open>None\<close> when the thread already holds the mutex, for then the call never
  returns. A driver function entered from the application does not hold the mutex (held
  by another thread, it is waited for and then taken), so its lock is
  \<open>mutex_lock False\<close>. \<^verbatim>\<open>mutex_lock_scoped\<close> is \<^verbatim>\<open>mutex_lock\<close> with the unlock at every
  return. An unlock frees the mutex: what is called after one, \<^verbatim>\<open>cdrom_abort_cmd\<close> in
  \<^verbatim>\<open>cdrom_stream_stop\<close>, is called without the mutex.
\<close>

definition mutex_lock :: "bool \<Rightarrow> bool option" where
  "mutex_lock held = (if held then None else Some True)"

lemma mutex_lock_free [simp]: "mutex_lock False = Some True"
  by (simp add: mutex_lock_def)

lemma mutex_lock_held [simp]: "mutex_lock True = None"
  by (simp add: mutex_lock_def)

subsection \<open>Command submission, polling, abort and synchronous execution\<close>

text \<open>
  A driver function takes the state and the world and yields its return value with the
  new state and world, or \<open>None\<close> when it does not return: a loop outlasts the scripted
  answers, an \<^verbatim>\<open>assert\<close> fails and the program stops, or the thread blocks on the mutex
  it holds. The parameter block \<^verbatim>\<open>void *param\<close> of a command is the list of its words.
\<close>

type_synonym 'a result = "('a \<times> cdrom_state \<times> world) option"

text \<open>The loop \<^verbatim>\<open>for(int n = 0; n < 10; ++n)\<close> of \<^verbatim>\<open>cdrom_req_cmd\<close>.\<close>

function req_loop :: "int \<Rightarrow> int list \<Rightarrow> nat \<Rightarrow> int \<Rightarrow> world \<Rightarrow> (int \<times> world) option" where
  "req_loop cmd param n hnd w =
     (if n < 10 then
        (case syscall_gdrom_send_command cmd param w of
           None \<Rightarrow> None
         | Some (hnd', w1) \<Rightarrow>
             if hnd' \<noteq> 0 then Some (hnd', w1)
             else req_loop cmd param (n + 1) hnd' (thd_pass (syscall_gdrom_exec_server w1)))
      else Some (hnd, w))"
  by pat_completeness auto
termination
  by (relation "measure (\<lambda>(cmd, param, n, hnd, w). 10 - n)") auto

definition cdrom_req_cmd :: "int \<Rightarrow> int list \<Rightarrow> world \<Rightarrow> (int \<times> world) option" where
  "cdrom_req_cmd cmd param w =
     (if \<not> (cmd > 0 \<and> cmd < CMD_MAX) then None
      else req_loop cmd param 0 0 w)"

definition cdrom_stream_set_callback ::
  "32 word \<Rightarrow> 32 word \<Rightarrow> cdrom_state \<Rightarrow> world \<Rightarrow> cdrom_state \<times> world" where
  "cdrom_stream_set_callback callback param s w =
     (let s1 = s\<lparr>stream_cb := callback, stream_cb_param := param\<rparr>
      in if stream_mode s1 = CDROM_READ_PIO \<or> stream_mode s1 = CDROM_READ_PIO_IRQ then
           (s1, syscall_gdrom_pio_callback (stream_cb s1) (stream_cb_param s1) w)
         else (s1, w))"

text \<open>
  The test \<^verbatim>\<open>(timer_ms_gettime64() - begin) >= (unsigned)timeout\<close>: a 64-bit unsigned
  difference against the 32 bits of the timeout, zero-extended.
\<close>

definition expired :: "64 word \<Rightarrow> 64 word \<Rightarrow> 32 word \<Rightarrow> bool" where
  "expired now begin timeout = (now - begin \<ge> ucast timeout)"

text \<open>The \<^verbatim>\<open>do ... while(1)\<close> of \<^verbatim>\<open>cdrom_abort_cmd\<close>; it yields \<^verbatim>\<open>rv\<close>.\<close>

function abort_loop :: "32 word \<Rightarrow> 64 word \<Rightarrow> cdrom_state \<Rightarrow> world \<Rightarrow> int result" where
  "abort_loop timeout begin s w =
     (case syscall_gdrom_check_command (cmd_hnd s) (syscall_gdrom_exec_server w) of
        None \<Rightarrow> None
      | Some ((resp, st), w1) \<Rightarrow>
          let s1 = s\<lparr>cmd_response := resp, cmd_status := st\<rparr>
          in if resp = NO_ACTIVE \<or> resp = COMPLETED then Some (ERR_OK, s1, w1)
             else if timeout \<noteq> 0 then
               (case timer_ms_gettime64 w1 of
                  None \<Rightarrow> None
                | Some (now, w2) \<Rightarrow>
                    if expired now begin timeout then
                      Some (ERR_TIMEOUT, s1,
                            syscall_gdrom_init (syscall_gdrom_reset (dbglog w2)))
                    else abort_loop timeout begin s1 (thd_pass w2))
             else abort_loop timeout begin s1 (thd_pass w1))"
  by pat_completeness auto
termination
  by (relation "measure (\<lambda>(timeout, begin, s, w). length (check_results w))")
     (auto simp: log_defs dest!: check_command_pops gettime_keeps)

text \<open>
  \<^verbatim>\<open>cdrom_abort_cmd\<close>, called by a thread that holds the device mutex (\<open>held\<close>) or does
  not. Its \<^verbatim>\<open>mutex_lock\<close> is in the branch taken when no DMA transfer is to be aborted;
  the \<^verbatim>\<open>mutex_unlock\<close> before its last return frees the mutex.
\<close>

definition cdrom_abort_cmd_from ::
  "bool \<Rightarrow> 32 word \<Rightarrow> bool \<Rightarrow> cdrom_state \<Rightarrow> world \<Rightarrow> int result" where
  "cdrom_abort_cmd_from held timeout abort_dma s w =
     (if cmd_hnd s \<le> 0 then Some (ERR_NO_ACTIVE, s, w)
      else if abort_dma \<and> dma_in_progress s \<and> dma_blocking s then
        Some (ERR_OK, s, syscall_gdrom_abort_command (cmd_hnd s) w)
      else do {
        s1 \<leftarrow> (if abort_dma \<and> dma_in_progress s then
                 Some (s\<lparr>dma_in_progress := False, cmd_in_progress := False, dma_thd := 0\<rparr>)
               else do { locked \<leftarrow> mutex_lock held; Some s });
        let w1 = syscall_gdrom_abort_command (cmd_hnd s1) w;
        (begin, w2) \<leftarrow> (if timeout \<noteq> 0 then timer_ms_gettime64 w1 else Some (0, w1));
        (rv, s2, w3) \<leftarrow> abort_loop timeout begin s1 w2;
        let s3 = s2\<lparr>cmd_hnd := 0, stream_mode := - 1\<rparr>;
        let (s4, w4) = (if stream_cb s3 \<noteq> 0 then cdrom_stream_set_callback 0 0 s3 w3
                        else (s3, w3));
        Some (rv, s4, w4)
      })"

text \<open>\<^verbatim>\<open>cdrom_abort_cmd\<close> called from the application: the caller does not hold the mutex.\<close>

definition cdrom_abort_cmd :: "32 word \<Rightarrow> bool \<Rightarrow> cdrom_state \<Rightarrow> world \<Rightarrow> int result" where
  "cdrom_abort_cmd timeout abort_dma s w = cdrom_abort_cmd_from False timeout abort_dma s w"

text \<open>
  The \<^verbatim>\<open>do ... while(1)\<close> of \<^verbatim>\<open>cdrom_poll_cmd\<close>. The C \<^verbatim>\<open>int timeout\<close> is its 32 bits:
  the code tests it against zero and casts it to unsigned. \<^verbatim>\<open>cdrom_poll_cmd\<close> is static
  and its one caller, \<^verbatim>\<open>cdrom_exec_cmd_ex\<close>, holds the device mutex across the call
  (\<^verbatim>\<open>mutex_lock_scoped\<close>): the \<^verbatim>\<open>cdrom_abort_cmd\<close> of the timeout is called with the mutex
  held.
\<close>

function poll_loop :: "int \<Rightarrow> 32 word \<Rightarrow> 64 word \<Rightarrow> cdrom_state \<Rightarrow> world \<Rightarrow> int result" where
  "poll_loop hnd timeout begin s w =
     (case syscall_gdrom_check_command hnd (syscall_gdrom_exec_server w) of
        None \<Rightarrow> None
      | Some ((resp, st), w1) \<Rightarrow>
          let s1 = s\<lparr>cmd_response := resp, cmd_status := st\<rparr>
          in if resp \<noteq> PROCESSING \<and> resp \<noteq> BUSY then Some (ERR_OK, s1, w1)
             else if timeout \<noteq> 0 then
               (case timer_ms_gettime64 w1 of
                  None \<Rightarrow> None
                | Some (now, w2) \<Rightarrow>
                    if expired now begin timeout then
                      (case cdrom_abort_cmd_from True 500 False s1 w2 of
                         None \<Rightarrow> None
                       | Some (r, s2, w3) \<Rightarrow> Some (ERR_TIMEOUT, s2, dbglog w3))
                    else poll_loop hnd timeout begin s1 (thd_pass w2))
             else poll_loop hnd timeout begin s1 (thd_pass w1))"
  by pat_completeness auto
termination
  by (relation "measure (\<lambda>(hnd, timeout, begin, s, w). length (check_results w))")
     (auto simp: log_defs dest!: check_command_pops gettime_keeps)

definition cdrom_poll_cmd :: "int \<Rightarrow> 32 word \<Rightarrow> cdrom_state \<Rightarrow> world \<Rightarrow> int result" where
  "cdrom_poll_cmd hnd timeout s w = do {
     (begin, w1) \<leftarrow> (if timeout \<noteq> 0 then timer_ms_gettime64 w else Some (0, w));
     poll_loop hnd timeout begin s w1
   }"

text \<open>
  The statement \<^verbatim>\<open>if(use_irq) { ... } else { rv = cdrom_poll_cmd(cmd_hnd, timeout); }\<close> of
  \<^verbatim>\<open>cdrom_exec_cmd_ex\<close>; it yields \<^verbatim>\<open>rv\<close>, which is \<^verbatim>\<open>ERR_OK\<close> on entry. It runs with
  the device mutex held.
\<close>

definition exec_wait :: "bool \<Rightarrow> 32 word \<Rightarrow> cdrom_state \<Rightarrow> world \<Rightarrow> int result" where
  "exec_wait use_irq timeout s w =
     (if use_irq then do {
        ((resp, st), w1) \<leftarrow>
          syscall_gdrom_check_command (cmd_hnd s) (syscall_gdrom_exec_server w);
        let s1 = s\<lparr>cmd_response := resp, cmd_status := st\<rparr>;
        if cmd_response s1 = PROCESSING \<or> cmd_response s1 = BUSY then do {
          (s2, w2) \<leftarrow> sem_wait Cmd_done (s1\<lparr>cmd_in_progress := True\<rparr>) w1;
          Some (ERR_OK, s2, w2)
        }
        else Some (ERR_OK, s1, w1)
      }
      else cdrom_poll_cmd (cmd_hnd s) timeout s w)"

text \<open>
  \<^verbatim>\<open>cdrom_exec_cmd_ex\<close>. Its \<^verbatim>\<open>mutex_lock_scoped\<close> comes first, and the mutex stays held
  until the function returns.
\<close>

definition cdrom_exec_cmd_ex ::
  "int \<Rightarrow> int list \<Rightarrow> 32 word \<Rightarrow> bool \<Rightarrow> cdrom_state \<Rightarrow> world \<Rightarrow> int result" where
  "cdrom_exec_cmd_ex cmd param timeout use_irq s w = do {
     held \<leftarrow> mutex_lock False;
     (hnd, w1) \<leftarrow> cdrom_req_cmd cmd param w;
     let s1 = s\<lparr>cmd_hnd := hnd\<rparr>;
     if cmd_hnd s1 \<le> 0 then Some (ERR_SYS, s1, w1)
     else do {
       (rv, s2, w2) \<leftarrow> exec_wait use_irq timeout s1 w1;
       let s3 = (if cmd_response s2 \<noteq> STREAMING then s2\<lparr>cmd_hnd := 0\<rparr> else s2);
       Some (if rv \<noteq> ERR_OK then rv
             else if cmd_response s3 = COMPLETED \<or> cmd_response s3 = STREAMING then ERR_OK
             else if cmd_response s3 = NO_ACTIVE then ERR_NO_ACTIVE
             else if err1 (cmd_status s3) = 2 then ERR_NO_DISC
             else if err1 (cmd_status s3) = 6 then ERR_DISC_CHG
             else ERR_SYS,
             s3, w2)
     }
   }"

definition cdrom_exec_cmd :: "int \<Rightarrow> int list \<Rightarrow> cdrom_state \<Rightarrow> world \<Rightarrow> int result" where
  "cdrom_exec_cmd cmd param s w = cdrom_exec_cmd_ex cmd param 0 False s w"

definition cdrom_exec_cmd_timed ::
  "int \<Rightarrow> int list \<Rightarrow> 32 word \<Rightarrow> cdrom_state \<Rightarrow> world \<Rightarrow> int result" where
  "cdrom_exec_cmd_timed cmd param timeout s w = cdrom_exec_cmd_ex cmd param timeout False s w"

subsection \<open>Sector reads\<close>

text \<open>The first loop of \<^verbatim>\<open>cdrom_read_sectors_dma_irq\<close>: until the response leaves \<^verbatim>\<open>BUSY\<close>.\<close>

function dma_irq_start_loop :: "cdrom_state \<Rightarrow> world \<Rightarrow> (cdrom_state \<times> world) option" where
  "dma_irq_start_loop s w =
     (case syscall_gdrom_check_command (cmd_hnd s) (syscall_gdrom_exec_server w) of
        None \<Rightarrow> None
      | Some ((resp, st), w1) \<Rightarrow>
          let s1 = s\<lparr>cmd_response := resp, cmd_status := st\<rparr>
          in if resp \<noteq> BUSY then Some (s1, w1)
             else dma_irq_start_loop s1 (thd_pass w1))"
  by pat_completeness auto
termination
  by (relation "measure (\<lambda>(s, w). length (check_results w))")
     (auto simp: log_defs dest!: check_command_pops)

text \<open>Its second loop: until the response is neither \<^verbatim>\<open>PROCESSING\<close> nor \<^verbatim>\<open>BUSY\<close>.\<close>

function dma_irq_finish_loop :: "cdrom_state \<Rightarrow> world \<Rightarrow> (cdrom_state \<times> world) option" where
  "dma_irq_finish_loop s w =
     (case syscall_gdrom_check_command (cmd_hnd s) (syscall_gdrom_exec_server w) of
        None \<Rightarrow> None
      | Some ((resp, st), w1) \<Rightarrow>
          let s1 = s\<lparr>cmd_response := resp, cmd_status := st\<rparr>
          in if resp \<noteq> PROCESSING \<and> resp \<noteq> BUSY then Some (s1, w1)
             else dma_irq_finish_loop s1 (thd_pass w1))"
  by pat_completeness auto
termination
  by (relation "measure (\<lambda>(s, w). length (check_results w))")
     (auto simp: log_defs dest!: check_command_pops)

definition cdrom_read_sectors_dma_irq :: "int list \<Rightarrow> cdrom_state \<Rightarrow> world \<Rightarrow> int result" where
  "cdrom_read_sectors_dma_irq params s w = do {
     held \<leftarrow> mutex_lock False;
     (hnd, w1) \<leftarrow> cdrom_req_cmd CMD_DMAREAD params w;
     let s1 = s\<lparr>cmd_hnd := hnd\<rparr>;
     if cmd_hnd s1 \<le> 0 then Some (ERR_SYS, s1, w1)
     else do {
       let s2 = s1\<lparr>dma_in_progress := True, dma_blocking := True\<rparr>;
       (s3, w2) \<leftarrow> dma_irq_start_loop s2 w1;
       (s4, w3) \<leftarrow>
         (if cmd_response s3 = PROCESSING then do {
            (s4, w3) \<leftarrow> sem_wait Dma_done (s3\<lparr>cmd_in_progress := True\<rparr>) w2;
            if cmd_response s4 = PROCESSING \<or> cmd_response s4 = BUSY then
              dma_irq_finish_loop s4 w3
            else Some (s4, w3)
          }
          else if sem_count Dma_done s3 > 0 then sem_wait Dma_done s3 w2
          else Some (s3, w2));
       let s5 = s4\<lparr>cmd_hnd := 0\<rparr>;
       Some (if cmd_response s5 = COMPLETED \<or> cmd_response s5 = NO_ACTIVE then ERR_OK
             else if err1 (cmd_status s5) = 2 then ERR_NO_DISC
             else if err1 (cmd_status s5) = 6 then ERR_DISC_CHG
             else ERR_SYS,
             s5, w3)
     }
   }"

text \<open>
  \<^verbatim>\<open>cdrom_read_sectors_ex\<close>. The buffer is its address; the parameter block is
  \<^verbatim>\<open>{sec, num, buffer, is_test}\<close>.
\<close>

definition cdrom_read_sectors_ex ::
  "32 word \<Rightarrow> int \<Rightarrow> int \<Rightarrow> int \<Rightarrow> cdrom_state \<Rightarrow> world \<Rightarrow> int result" where
  "cdrom_read_sectors_ex buffer sector cnt mode s w =
     (let buf_addr = buffer
      in if mode = CDROM_READ_DMA \<or> mode = CDROM_READ_DMA_IRQ then
           (if buf_addr AND 0x1f \<noteq> 0 then Some (ERR_SYS, s, dbglog w)
            else
              let params = [sector, cnt, uint (buf_addr AND MEM_AREA_CACHE_MASK), 0];
                  w1 = (if buf_addr AND MEM_AREA_P2_BASE \<noteq> MEM_AREA_P2_BASE then
                          dcache_inval_range buf_addr (word_of_int (cnt * cur_sector_size s)) w
                        else w)
              in if mode = CDROM_READ_DMA_IRQ then cdrom_read_sectors_dma_irq params s w1
                 else cdrom_exec_cmd CMD_DMAREAD params s w1)
         else
           (let params = [sector, cnt, uint buffer, 0]
            in if buf_addr AND 0x01 \<noteq> 0 then Some (ERR_SYS, s, dbglog w)
               else if mode = CDROM_READ_PIO_IRQ then
                 cdrom_exec_cmd_ex CMD_PIOREAD params 0 True s w
               else cdrom_exec_cmd CMD_PIOREAD params s w))"

definition cdrom_read_sectors :: "32 word \<Rightarrow> int \<Rightarrow> int \<Rightarrow> cdrom_state \<Rightarrow> world \<Rightarrow> int result" where
  "cdrom_read_sectors buffer sector cnt s w =
     cdrom_read_sectors_ex buffer sector cnt CDROM_READ_PIO s w"

subsection \<open>Streaming\<close>

text \<open>
  How a loop with a \<^verbatim>\<open>return\<close> inside ends: by \<^verbatim>\<open>break\<close>, with the value of \<^verbatim>\<open>rv\<close>, or by
  returning from the function.
\<close>

datatype loop_exit = Break int | Return int

text \<open>
  The \<^verbatim>\<open>do ... while(1)\<close> of \<^verbatim>\<open>cdrom_stream_stop\<close>. On \<^verbatim>\<open>STREAMING\<close> the mutex is unlocked
  before \<^verbatim>\<open>cdrom_abort_cmd\<close> is called: the call is made without the mutex.
\<close>

function stream_stop_loop :: "cdrom_state \<Rightarrow> world \<Rightarrow> loop_exit result" where
  "stream_stop_loop s w =
     (case syscall_gdrom_check_command (cmd_hnd s) (syscall_gdrom_exec_server w) of
        None \<Rightarrow> None
      | Some ((resp, st), w1) \<Rightarrow>
          let s1 = s\<lparr>cmd_response := resp, cmd_status := st\<rparr>
          in if resp < 0 then Some (Break ERR_SYS, s1, w1)
             else if resp = COMPLETED \<or> resp = NO_ACTIVE then Some (Break ERR_OK, s1, w1)
             else if resp = STREAMING then
               (case cdrom_abort_cmd 1000 False s1 w1 of
                  None \<Rightarrow> None
                | Some (r, s2, w2) \<Rightarrow> Some (Return r, s2, w2))
             else stream_stop_loop s1 (thd_pass w1))"
  by pat_completeness auto
termination
  by (relation "measure (\<lambda>(s, w). length (check_results w))")
     (auto simp: log_defs dest!: check_command_pops)

definition cdrom_stream_stop :: "bool \<Rightarrow> cdrom_state \<Rightarrow> world \<Rightarrow> int result" where
  "cdrom_stream_stop abort_dma s w =
     (if cmd_hnd s \<le> 0 then Some (ERR_OK, s, w)
      else if abort_dma \<and> dma_in_progress s then cdrom_abort_cmd 1000 True s w
      else do {
        held \<leftarrow> mutex_lock False;
        (ex, s1, w1) \<leftarrow> stream_stop_loop s w;
        (case ex of
           Return r \<Rightarrow> Some (r, s1, w1)
         | Break rv \<Rightarrow>
             let s2 = s1\<lparr>cmd_hnd := 0, stream_mode := - 1\<rparr>;
                 (s3, w2) = (if stream_cb s2 \<noteq> 0 then cdrom_stream_set_callback 0 0 s2 w1
                             else (s2, w1))
             in Some (rv, s3, w2))
      })"

text \<open>\<^verbatim>\<open>cdrom_stream_start\<close>; the parameter block is \<^verbatim>\<open>{sec, num}\<close>.\<close>

definition cdrom_stream_start :: "int \<Rightarrow> int \<Rightarrow> int \<Rightarrow> cdrom_state \<Rightarrow> world \<Rightarrow> int result" where
  "cdrom_stream_start sector cnt mode s w = do {
     (r0, s1, w1) \<leftarrow>
       (if stream_mode s \<noteq> - 1 then cdrom_stream_stop False s w else Some (ERR_OK, s, w));
     let s2 = s1\<lparr>stream_mode := mode\<rparr>;
     (rv, s3, w2) \<leftarrow>
       (if mode = CDROM_READ_DMA then
          cdrom_exec_cmd_ex CMD_DMAREAD_STREAM [sector, cnt] 0 False s2 w1
        else if mode = CDROM_READ_DMA_IRQ then
          cdrom_exec_cmd_ex CMD_DMAREAD_STREAM [sector, cnt] 0 True s2 w1
        else if mode = CDROM_READ_PIO_IRQ then
          cdrom_exec_cmd_ex CMD_PIOREAD_STREAM [sector, cnt] 0 True s2 w1
        else cdrom_exec_cmd_ex CMD_PIOREAD_STREAM [sector, cnt] 0 False s2 w1);
     Some (rv, if rv \<noteq> ERR_OK then s3\<lparr>stream_mode := - 1\<rparr> else s3, w2)
   }"

text \<open>
  The polling loop of the DMA branch of \<^verbatim>\<open>cdrom_stream_request\<close>; it yields \<^verbatim>\<open>rv\<close>, which
  is \<^verbatim>\<open>ERR_OK\<close> on entry.
\<close>

function stream_dma_loop :: "cdrom_state \<Rightarrow> world \<Rightarrow> int result" where
  "stream_dma_loop s w =
     (case syscall_gdrom_check_command (cmd_hnd s) (syscall_gdrom_exec_server w) of
        None \<Rightarrow> None
      | Some ((resp, st), w1) \<Rightarrow>
          let s1 = s\<lparr>cmd_response := resp, cmd_status := st\<rparr>
          in if resp < 0 then Some (ERR_SYS, s1, w1)
             else if resp = COMPLETED \<or> resp = NO_ACTIVE then Some (ERR_OK, s1\<lparr>cmd_hnd := 0\<rparr>, w1)
             else (case syscall_gdrom_dma_check (cmd_hnd s1) w1 of
                     None \<Rightarrow> None
                   | Some ((rc, check_size), w2) \<Rightarrow>
                       if rc = 0 then Some (ERR_OK, s1, w2)
                       else stream_dma_loop s1 (thd_pass w2)))"
  by pat_completeness auto
termination
  by (relation "measure (\<lambda>(s, w). length (check_results w))")
     (auto simp: log_defs syscall_gdrom_dma_check_def dest!: check_command_pops split: list.splits)

text \<open>
  The polling loop of the PIO branch. The user's callback is opaque: calling it is the
  event \<open>Stream_cb\<close> with the callback and its parameter.
\<close>

function stream_pio_loop :: "cdrom_state \<Rightarrow> world \<Rightarrow> int result" where
  "stream_pio_loop s w =
     (case syscall_gdrom_check_command (cmd_hnd s) (syscall_gdrom_exec_server w) of
        None \<Rightarrow> None
      | Some ((resp, st), w1) \<Rightarrow>
          let s1 = s\<lparr>cmd_response := resp, cmd_status := st\<rparr>
          in if resp < 0 then Some (ERR_SYS, s1, w1)
             else if resp = COMPLETED \<or> resp = NO_ACTIVE then Some (ERR_OK, s1\<lparr>cmd_hnd := 0\<rparr>, w1)
             else (case syscall_gdrom_pio_check (cmd_hnd s1) w1 of
                     None \<Rightarrow> None
                   | Some ((rc, check_size), w2) \<Rightarrow>
                       if rc = 0 then
                         Some (ERR_OK, s1,
                               if check_size = 0 \<and> stream_cb s1 \<noteq> 0 then
                                 emit (Stream_cb (stream_cb s1) (stream_cb_param s1)) w2
                               else w2)
                       else stream_pio_loop s1 (thd_pass w2)))"
  by pat_completeness auto
termination
  by (relation "measure (\<lambda>(s, w). length (check_results w))")
     (auto simp: log_defs syscall_gdrom_pio_check_def dest!: check_command_pops split: list.splits)

text \<open>
  The second half of \<^verbatim>\<open>cdrom_stream_request\<close>, from \<^verbatim>\<open>params[1] = size\<close> and the
  \<^verbatim>\<open>mutex_lock_scoped\<close> on; \<open>params\<close> is the pair \<^verbatim>\<open>{params[0], params[1]}\<close>.
\<close>

definition stream_request_transfer ::
  "32 word \<times> 32 word \<Rightarrow> bool \<Rightarrow> cdrom_state \<Rightarrow> world \<Rightarrow> int result" where
  "stream_request_transfer params block s w = do {
     held \<leftarrow> mutex_lock False;
     if stream_mode s = CDROM_READ_DMA \<or> stream_mode s = CDROM_READ_DMA_IRQ then do {
        let s1 = s\<lparr>dma_in_progress := True, dma_blocking := block\<rparr>;
        let s2 = (if \<not> block then
                    s1\<lparr>dma_thd := (if irq_inside_int w then 0xFFFFFFFF else thd_current w)\<rparr>
                  else s1);
        (rs, w1) \<leftarrow> syscall_gdrom_dma_transfer (cmd_hnd s2) params w;
        if rs < 0 then
          Some (ERR_SYS, s2\<lparr>dma_in_progress := False, dma_blocking := False, dma_thd := 0\<rparr>, w1)
        else if \<not> block then Some (ERR_OK, s2, w1)
        else do {
          (s3, w2) \<leftarrow> (if stream_mode s2 = CDROM_READ_DMA_IRQ then sem_wait Dma_done s2 w1
                        else Some (s2, w1));
          stream_dma_loop s3 w2
        }
     }
     else if stream_mode s = CDROM_READ_PIO then do {
        (rs, w1) \<leftarrow> syscall_gdrom_pio_transfer (cmd_hnd s) params w;
        if rs < 0 then Some (ERR_SYS, s, w1)
        else stream_pio_loop s w1
     }
     else Some (ERR_OK, s, w)
   }"

text \<open>
  \<^verbatim>\<open>cdrom_stream_request\<close>. \<^verbatim>\<open>params[0]\<close> is an \<^verbatim>\<open>int32_t\<close>: its shift right by 24 is the
  arithmetic one.
\<close>

definition cdrom_stream_request ::
  "32 word \<Rightarrow> 32 word \<Rightarrow> bool \<Rightarrow> cdrom_state \<Rightarrow> world \<Rightarrow> int result" where
  "cdrom_stream_request buffer size' block s w =
     (if cmd_hnd s \<le> 0 then Some (ERR_NO_ACTIVE, s, w)
      else if dma_in_progress s then Some (ERR_SYS, s, dbglog w)
      else if stream_mode s = CDROM_READ_DMA \<or> stream_mode s = CDROM_READ_DMA_IRQ then
        (let p0 = buffer AND MEM_AREA_CACHE_MASK
         in if p0 AND 0x1f \<noteq> 0 then Some (ERR_SYS, s, dbglog w)
            else stream_request_transfer (p0, size') block s
                   (if signed_drop_bit 24 p0 = 0x0c then dcache_inval_range buffer size' w
                    else w))
      else
        (let p0 = buffer
         in if p0 AND 0x01 \<noteq> 0 then Some (ERR_SYS, s, dbglog w)
            else stream_request_transfer (p0, size') block s w))"

text \<open>
  The loops are unfolded one step at a time in the proofs, never by the simplifier on its
  own.
\<close>

declare locate_loop.simps [simp del] req_loop.simps [simp del] abort_loop.simps [simp del]
  poll_loop.simps [simp del] sem_wait.simps [simp del] dma_irq_start_loop.simps [simp del]
  dma_irq_finish_loop.simps [simp del] stream_stop_loop.simps [simp del]
  stream_dma_loop.simps [simp del] stream_pio_loop.simps [simp del]

subsection \<open>States, worlds and discs of the examples\<close>

text \<open>The state the static initialisers of cdrom.c give, and a world with empty scripts.\<close>

definition initial_state :: cdrom_state where
  "initial_state =
     \<lparr>cmd_hnd = 0, cmd_done = 0, cmd_in_progress = False, cmd_response = NO_ACTIVE,
      cmd_status = \<lparr>err1 = 0, err2 = 0, transferred = 0, ata_status = 0\<rparr>,
      stream_mode = - 1, stream_cb = 0, stream_cb_param = 0,
      dma_in_progress = False, dma_blocking = False, dma_thd = 0, dma_done = 0,
      old_dma_irq_hdl = 0, cur_sector_size = 2048\<rparr>"

definition silent_world :: world where
  "silent_world =
     \<lparr>send_results = [], check_results = [], dma_transfer_results = [],
      pio_transfer_results = [], dma_check_results = [], pio_check_results = [],
      timer_readings = [], interrupts = [], thd_current = 0x8c010000,
      irq_inside_int = False, trace = []\<rparr>"

definition no_error :: gdc_status where
  "no_error = \<lparr>err1 = 0, err2 = 0, transferred = 0, ata_status = 0\<rparr>"

text \<open>A handle is live on a streaming command; one state per transfer mode.\<close>

definition blocking_dma_state :: cdrom_state where
  "blocking_dma_state =
     initial_state\<lparr>cmd_hnd := 1, cmd_response := STREAMING, stream_mode := CDROM_READ_DMA_IRQ,
                   stream_cb := 0x8c020000, dma_in_progress := True, dma_blocking := True\<rparr>"

definition pio_stream_state :: cdrom_state where
  "pio_stream_state =
     initial_state\<lparr>cmd_hnd := 1, cmd_response := STREAMING, stream_mode := CDROM_READ_PIO,
                   stream_cb := 0x8c020000, stream_cb_param := 0x8c030000\<rparr>"

definition abort_ack_world :: world where
  "abort_ack_world = silent_world\<lparr>check_results := [(COMPLETED, no_error)], timer_readings := [100]\<rparr>"

definition pio_irq_stream_state :: cdrom_state where
  "pio_irq_stream_state =
     initial_state\<lparr>cmd_hnd := 1, cmd_response := STREAMING, stream_mode := CDROM_READ_PIO_IRQ\<rparr>"

definition sends_world :: "int list \<Rightarrow> world" where
  "sends_world hs = silent_world\<lparr>send_results := hs\<rparr>"

text \<open>
  A disc with an audio track and a data track at LBA 11852, and a table of contents that
  is all zero.
\<close>

definition mixed_mode_toc :: CDROM_TOC where
  "mixed_mode_toc =
     \<lparr>entry = [0x01000096, 0x41002E4C] @ replicate 97 0xffffffff,
      first = 0x01010000, last_track = 0x41020000, leadout_sector = 0x0100D2F0\<rparr>"

definition empty_toc :: CDROM_TOC where
  "empty_toc = \<lparr>entry = replicate 99 0, first = 0, last_track = 0, leadout_sector = 0\<rparr>"

definition finished_dma_stream_state :: cdrom_state where
  "finished_dma_stream_state =
     initial_state\<lparr>cmd_response := COMPLETED, stream_mode := CDROM_READ_DMA\<rparr>"

definition dma_stream_state :: cdrom_state where
  "dma_stream_state =
     initial_state\<lparr>cmd_hnd := 1, cmd_response := STREAMING, stream_mode := CDROM_READ_DMA\<rparr>"

definition complete_at_once_world :: world where
  "complete_at_once_world =
     silent_world\<lparr>send_results := [1], check_results := [(COMPLETED, no_error)]\<rparr>"


definition last_chunk_world :: world where
  "last_chunk_world =
     silent_world\<lparr>pio_transfer_results := [0],
       check_results := [(STREAMING, no_error), (STREAMING, no_error)],
       pio_check_results := [(1, 1024), (0, 0)]\<rparr>"

text \<open>
  A command still processing at 4 ms and at 12 ms after the start of a poll, whose abort
  the firmware would acknowledge; a stream that is still streaming when it is stopped, and the
  command that follows; a stream command followed by one more command.
\<close>

definition timeout_world :: world where
  "timeout_world =
     silent_world\<lparr>send_results := [1],
       check_results := [(PROCESSING, no_error), (PROCESSING, no_error), (COMPLETED, no_error)],
       timer_readings := [1000, 1004, 1012, 1012]\<rparr>"

definition restart_world :: world where
  "restart_world =
     silent_world\<lparr>send_results := [2],
       check_results := [(STREAMING, no_error), (COMPLETED, no_error), (STREAMING, no_error)],
       timer_readings := [100]\<rparr>"

definition two_command_world :: world where
  "two_command_world =
     silent_world\<lparr>send_results := [1, 2],
       check_results := [(STREAMING, no_error), (COMPLETED, no_error)]\<rparr>"

subsection \<open>The result code, in the words of the specification\<close>


section \<open>Properties\<close>

subsection \<open>One step of a polling loop\<close>

lemmas run_defs =
  syscall_gdrom_send_command_def syscall_gdrom_check_command_def timer_ms_gettime64_def
  syscall_gdrom_dma_transfer_def syscall_gdrom_pio_transfer_def syscall_gdrom_dma_check_def
  syscall_gdrom_pio_check_def log_defs emit_def

lemma check_command_Cons:
  "check_results w = (resp, st) # rs \<Longrightarrow>
   syscall_gdrom_check_command hnd (syscall_gdrom_exec_server w) =
     Some ((resp, st),
           emit (Check_command hnd resp) ((syscall_gdrom_exec_server w)\<lparr>check_results := rs\<rparr>))"
  by (simp add: syscall_gdrom_check_command_def log_defs)

lemma check_command_Nil:
  "check_results w = [] \<Longrightarrow>
   syscall_gdrom_check_command hnd (syscall_gdrom_exec_server w) = None"
  by (simp add: syscall_gdrom_check_command_def log_defs)


subsection \<open>Locating the data track\<close>

lemma locate_loop_none:
  "(\<forall>i. f \<le> i \<and> i \<le> l \<longrightarrow> TOC_CTRL (entry toc ! nat (i - 1)) \<noteq> 4) \<Longrightarrow> locate_loop toc f l = 0"
proof (induction toc f l rule: locate_loop.induct)
  case (1 toc f i)
  show ?case
  proof (cases "f \<le> i")
    case True
    have c: "TOC_CTRL (entry toc ! nat (i - 1)) \<noteq> 4" using True 1(2) by simp
    have "locate_loop toc f (i - 1) = 0" using 1(1)[OF True c] 1(2) by simp
    then show ?thesis using True c by (simp add: locate_loop.simps [of toc f i])
  next
    case False
    then show ?thesis by (simp add: locate_loop.simps [of toc f i])
  qed
qed

lemma locate_loop_found:
  "f \<le> k \<Longrightarrow> k \<le> l \<Longrightarrow> TOC_CTRL (entry toc ! nat (k - 1)) = 4 \<Longrightarrow>
   (\<forall>j. k < j \<and> j \<le> l \<longrightarrow> TOC_CTRL (entry toc ! nat (j - 1)) \<noteq> 4) \<Longrightarrow>
   locate_loop toc f l = TOC_LBA (entry toc ! nat (k - 1))"
proof (induction toc f l rule: locate_loop.induct)
  case (1 toc f i)
  show ?case
  proof (cases "k = i")
    case True
    then show ?thesis using 1(2,4) by (simp add: locate_loop.simps [of toc f i])
  next
    case False
    then have lt: "k < i" using 1(3) by simp
    then have c: "TOC_CTRL (entry toc ! nat (i - 1)) \<noteq> 4" using 1(5) by simp
    have fi: "f \<le> i" using 1(2) lt by simp
    have "locate_loop toc f (i - 1) = TOC_LBA (entry toc ! nat (k - 1))"
      using 1(1)[OF fi c 1(2) _ 1(4)] lt 1(5) by simp
    then show ?thesis using fi c by (simp add: locate_loop.simps [of toc f i])
  qed
qed

text \<open>
  C10: \<^verbatim>\<open>cdrom_locate_data_track\<close> returns 0 when the first track number is less than 1,
  the last one greater than 99, or the first exceeds the last. Otherwise it returns the
  LBA of the highest-numbered track \<open>k\<close> between the first and the last whose control
  field is 4 (no track above \<open>k\<close> has it), and 0 when no track in that range has it.
\<close>

theorem cdrom_locate_data_track_spec:
  assumes "length (entry toc) = 99"
    and "f = uint (TOC_TRACK (first toc))" and "l = uint (TOC_TRACK (last_track toc))"
  shows "(f < 1 \<or> 99 < l \<or> l < f \<longrightarrow> cdrom_locate_data_track toc = 0) \<and>
         (1 \<le> f \<and> l \<le> 99 \<and> f \<le> l \<and>
          (\<forall>i. f \<le> i \<and> i \<le> l \<longrightarrow> TOC_CTRL (entry toc ! nat (i - 1)) \<noteq> 4) \<longrightarrow>
            cdrom_locate_data_track toc = 0) \<and>
         (1 \<le> f \<and> l \<le> 99 \<and> f \<le> k \<and> k \<le> l \<and> TOC_CTRL (entry toc ! nat (k - 1)) = 4 \<and>
          (\<forall>j. k < j \<and> j \<le> l \<longrightarrow> TOC_CTRL (entry toc ! nat (j - 1)) \<noteq> 4) \<longrightarrow>
            cdrom_locate_data_track toc = TOC_LBA (entry toc ! nat (k - 1)))"
proof -
  have reject: "f < 1 \<or> 99 < l \<or> l < f \<longrightarrow> cdrom_locate_data_track toc = 0"
    using assms(2,3) by (auto simp: cdrom_locate_data_track_def Let_def)
  have none: "1 \<le> f \<and> l \<le> 99 \<and> f \<le> l \<and>
      (\<forall>i. f \<le> i \<and> i \<le> l \<longrightarrow> TOC_CTRL (entry toc ! nat (i - 1)) \<noteq> 4) \<longrightarrow>
        cdrom_locate_data_track toc = 0"
    using assms(2,3) locate_loop_none [of f l toc]
    by (auto simp: cdrom_locate_data_track_def Let_def)
  have found: "1 \<le> f \<and> l \<le> 99 \<and> f \<le> k \<and> k \<le> l \<and> TOC_CTRL (entry toc ! nat (k - 1)) = 4 \<and>
      (\<forall>j. k < j \<and> j \<le> l \<longrightarrow> TOC_CTRL (entry toc ! nat (j - 1)) \<noteq> 4) \<longrightarrow>
        cdrom_locate_data_track toc = TOC_LBA (entry toc ! nat (k - 1))"
  proof
    assume h: "1 \<le> f \<and> l \<le> 99 \<and> f \<le> k \<and> k \<le> l \<and> TOC_CTRL (entry toc ! nat (k - 1)) = 4 \<and>
      (\<forall>j. k < j \<and> j \<le> l \<longrightarrow> TOC_CTRL (entry toc ! nat (j - 1)) \<noteq> 4)"
    then have "locate_loop toc f l = TOC_LBA (entry toc ! nat (k - 1))"
      by (intro locate_loop_found) auto
    moreover have "\<not> (f < 1 \<or> l > 99 \<or> f > l)" using h by auto
    ultimately show "cdrom_locate_data_track toc = TOC_LBA (entry toc ! nat (k - 1))"
      using assms(2,3) by (simp add: cdrom_locate_data_track_def Let_def)
  qed
  show ?thesis using reject none found by blast
qed

theorem cdrom_locate_data_track_spec_witness:
  "length (entry mixed_mode_toc) = 99 \<and> cdrom_locate_data_track mixed_mode_toc = 0x2E4C \<and>
   length (entry empty_toc) = 99 \<and> cdrom_locate_data_track empty_toc = 0"
proof -
  have len: "length (entry mixed_mode_toc) = 99" by (simp add: mixed_mode_toc_def)
  have f: "(1::int) = uint (TOC_TRACK (first mixed_mode_toc))"
    and l: "(2::int) = uint (TOC_TRACK (last_track mixed_mode_toc))"
    by (simp_all add: mixed_mode_toc_def TOC_TRACK_def)
  have ctrl: "TOC_CTRL (entry mixed_mode_toc ! nat (2 - 1)) = 4"
    and lba: "TOC_LBA (entry mixed_mode_toc ! nat (2 - 1)) = 0x2E4C"
    by (simp_all add: mixed_mode_toc_def TOC_CTRL_def TOC_LBA_def)
  have data: "cdrom_locate_data_track mixed_mode_toc = 0x2E4C"
    using cdrom_locate_data_track_spec [OF len f l, of 2] ctrl lba by auto
  have len0: "length (entry empty_toc) = 99" by (simp add: empty_toc_def)
  have f0: "(0::int) = uint (TOC_TRACK (first empty_toc))"
    and l0: "(0::int) = uint (TOC_TRACK (last_track empty_toc))"
    by (simp_all add: empty_toc_def TOC_TRACK_def)
  have none: "cdrom_locate_data_track empty_toc = 0"
    using cdrom_locate_data_track_spec [OF len0 f0 l0, of 0] by simp
  show ?thesis using len data len0 none by simp
qed

subsection \<open>Command submission\<close>

lemma req_loop_found:
  "n + k < 10 \<Longrightarrow> send_results w = replicate k 0 @ h # rest \<Longrightarrow> h \<noteq> 0 \<Longrightarrow>
   req_loop cmd param n hnd w =
     Some (h, w\<lparr>send_results := rest,
               trace := trace w @ concat (replicate k [Send_command cmd param 0, Exec_server, Thd_pass])
                        @ [Send_command cmd param h]\<rparr>)"
proof (induction k arbitrary: n hnd w)
  case 0
  then show ?case
    by (simp add: req_loop.simps [of cmd param n] syscall_gdrom_send_command_def emit_def)
next
  case (Suc k)
  let ?w1 = "thd_pass (syscall_gdrom_exec_server
               (emit (Send_command cmd param 0) (w\<lparr>send_results := replicate k 0 @ h # rest\<rparr>)))"
  have step: "req_loop cmd param n hnd w = req_loop cmd param (n + 1) 0 ?w1"
    using Suc.prems by (simp add: req_loop.simps [of cmd param n] syscall_gdrom_send_command_def)
  have "req_loop cmd param (n + 1) 0 ?w1 =
     Some (h, ?w1\<lparr>send_results := rest,
               trace := trace ?w1 @ concat (replicate k [Send_command cmd param 0, Exec_server, Thd_pass])
                        @ [Send_command cmd param h]\<rparr>)"
    using Suc.prems by (intro Suc.IH) (simp_all add: log_defs)
  then show ?case
    unfolding step by (simp add: log_defs emit_def)
qed

lemma req_loop_none:
  "n + k = 10 \<Longrightarrow> send_results w = replicate k 0 @ rest \<Longrightarrow> (k = 0 \<longrightarrow> hnd = 0) \<Longrightarrow>
   req_loop cmd param n hnd w =
     Some (0, w\<lparr>send_results := rest,
               trace := trace w @ concat (replicate k [Send_command cmd param 0, Exec_server, Thd_pass])\<rparr>)"
proof (induction k arbitrary: n hnd w)
  case 0
  then show ?case by (auto simp: req_loop.simps [of cmd param 10])
next
  case (Suc k)
  let ?w1 = "thd_pass (syscall_gdrom_exec_server
               (emit (Send_command cmd param 0) (w\<lparr>send_results := replicate k 0 @ rest\<rparr>)))"
  have step: "req_loop cmd param n hnd w = req_loop cmd param (n + 1) 0 ?w1"
    using Suc.prems by (simp add: req_loop.simps [of cmd param n] syscall_gdrom_send_command_def)
  have "req_loop cmd param (n + 1) 0 ?w1 =
     Some (0, ?w1\<lparr>send_results := rest,
               trace := trace ?w1 @ concat (replicate k [Send_command cmd param 0, Exec_server, Thd_pass])\<rparr>)"
    using Suc.prems by (intro Suc.IH) (simp_all add: log_defs)
  then show ?case
    unfolding step by (simp add: log_defs emit_def)
qed

text \<open>
  C7: \<^verbatim>\<open>cdrom_req_cmd\<close> sends the command at most 10 times. After \<open>k < 10\<close> attempts that
  gave 0, each followed by a run of the firmware dispatcher and a yield, the first
  non-zero handle is returned at once; after 10 attempts that gave 0 the result is 0 and
  nothing more is sent. When the handle obtained is not positive, \<^verbatim>\<open>cdrom_exec_cmd_ex\<close>
  returns \<^verbatim>\<open>ERR_SYS\<close> in the world the submission left: it has not polled.
\<close>

theorem cdrom_req_cmd_attempts:
  assumes "0 < cmd" and "cmd < CMD_MAX"
  shows "(k < 10 \<and> h \<noteq> 0 \<and> send_results w = replicate k 0 @ h # rest \<longrightarrow>
            cdrom_req_cmd cmd param w =
              Some (h, w\<lparr>send_results := rest,
                        trace := trace w
                          @ concat (replicate k [Send_command cmd param 0, Exec_server, Thd_pass])
                          @ [Send_command cmd param h]\<rparr>)) \<and>
         (send_results w = replicate 10 0 @ rest \<longrightarrow>
            cdrom_req_cmd cmd param w =
              Some (0, w\<lparr>send_results := rest,
                        trace := trace w
                          @ concat (replicate 10 [Send_command cmd param 0, Exec_server, Thd_pass])\<rparr>)) \<and>
         (cdrom_req_cmd cmd param w = Some (hnd, w1) \<and> hnd \<le> 0 \<longrightarrow>
            cdrom_exec_cmd_ex cmd param timeout use_irq s w = Some (ERR_SYS, s\<lparr>cmd_hnd := hnd\<rparr>, w1))"
proof -
  have found: "k < 10 \<and> h \<noteq> 0 \<and> send_results w = replicate k 0 @ h # rest \<longrightarrow>
      cdrom_req_cmd cmd param w =
        Some (h, w\<lparr>send_results := rest,
                  trace := trace w
                    @ concat (replicate k [Send_command cmd param 0, Exec_server, Thd_pass])
                    @ [Send_command cmd param h]\<rparr>)"
    using assms req_loop_found [of 0 k w h rest cmd param 0] by (simp add: cdrom_req_cmd_def)
  have none: "send_results w = replicate 10 0 @ rest \<longrightarrow>
      cdrom_req_cmd cmd param w =
        Some (0, w\<lparr>send_results := rest,
                  trace := trace w
                    @ concat (replicate 10 [Send_command cmd param 0, Exec_server, Thd_pass])\<rparr>)"
    using assms req_loop_none [of 0 10 w rest 0 cmd param] by (simp add: cdrom_req_cmd_def)
  have fail: "cdrom_req_cmd cmd param w = Some (hnd, w1) \<and> hnd \<le> 0 \<longrightarrow>
      cdrom_exec_cmd_ex cmd param timeout use_irq s w = Some (ERR_SYS, s\<lparr>cmd_hnd := hnd\<rparr>, w1)"
    by (simp add: cdrom_exec_cmd_ex_def)
  show ?thesis using found none fail by blast
qed

theorem cdrom_req_cmd_attempts_witness:
  "cdrom_req_cmd CMD_PIOREAD [150, 1, 0x8c010000, 0] (sends_world [0, 0, 7, 8]) =
     Some (7, silent_world\<lparr>send_results := [8],
        trace := [Send_command CMD_PIOREAD [150, 1, 0x8c010000, 0] 0, Exec_server, Thd_pass,
                  Send_command CMD_PIOREAD [150, 1, 0x8c010000, 0] 0, Exec_server, Thd_pass,
                  Send_command CMD_PIOREAD [150, 1, 0x8c010000, 0] 7]\<rparr>) \<and>
   (\<exists>w1. cdrom_req_cmd CMD_PIOREAD [150, 1, 0x8c010000, 0] (sends_world (replicate 10 0 @ [9])) = Some (0, w1) \<and>
      send_results w1 = [9] \<and>
      cdrom_exec_cmd_ex CMD_PIOREAD [150, 1, 0x8c010000, 0] 0 False initial_state
        (sends_world (replicate 10 0 @ [9])) = Some (ERR_SYS, initial_state, w1))"
proof -
  let ?p = "[150, 1, 0x8c010000, 0] :: int list"
  have c: "0 < CMD_PIOREAD" "CMD_PIOREAD < CMD_MAX" by (simp_all add: cmd_defs)
  have a: "cdrom_req_cmd CMD_PIOREAD ?p (sends_world [0, 0, 7, 8]) =
     Some (7, silent_world\<lparr>send_results := [8],
        trace := [Send_command CMD_PIOREAD ?p 0, Exec_server, Thd_pass,
                  Send_command CMD_PIOREAD ?p 0, Exec_server, Thd_pass,
                  Send_command CMD_PIOREAD ?p 7]\<rparr>)"
    using cdrom_req_cmd_attempts [OF c, of 2 7 "sends_world [0, 0, 7, 8]" "[8]" ?p]
    by (simp add: sends_world_def silent_world_def numeral_2_eq_2)
  let ?w = "sends_world (replicate 10 0 @ [9])"
  obtain w1 where r: "cdrom_req_cmd CMD_PIOREAD ?p ?w = Some (0, w1)" and s: "send_results w1 = [9]"
    using cdrom_req_cmd_attempts [OF c, of _ _ ?w "[9]" ?p]
    by (simp add: sends_world_def)
  have "cdrom_exec_cmd_ex CMD_PIOREAD ?p 0 False initial_state ?w = Some (ERR_SYS, initial_state\<lparr>cmd_hnd := 0\<rparr>, w1)"
    using cdrom_req_cmd_attempts [OF c, of _ _ ?w _ ?p 0 w1 0 False initial_state] r by simp
  then have "cdrom_exec_cmd_ex CMD_PIOREAD ?p 0 False initial_state ?w = Some (ERR_SYS, initial_state, w1)"
    by (simp add: initial_state_def)
  then show ?thesis using a r s by blast
qed

subsection \<open>Abort\<close>

lemma abort_cmd_from_clears:
  assumes "0 < cmd_hnd s" and "\<not> (abort_dma \<and> dma_in_progress s \<and> dma_blocking s)"
    and "cdrom_abort_cmd_from held timeout abort_dma s w = Some (rv, s', w')"
  shows "cmd_hnd s' = 0 \<and> stream_mode s' = - 1 \<and> stream_cb s' = 0"
  using assms
  by (auto simp: cdrom_abort_cmd_from_def cdrom_stream_set_callback_def Let_def
      split: if_splits Option.bind_splits prod.splits)

lemma abort_cmd_clears:
  assumes "0 < cmd_hnd s" and "\<not> (abort_dma \<and> dma_in_progress s \<and> dma_blocking s)"
    and "cdrom_abort_cmd timeout abort_dma s w = Some (rv, s', w')"
  shows "cmd_hnd s' = 0 \<and> stream_mode s' = - 1 \<and> stream_cb s' = 0"
  using assms abort_cmd_from_clears [of s abort_dma False timeout w rv s' w']
  by (simp add: cdrom_abort_cmd_def)

lemma abort_run:
  "cdrom_abort_cmd 1000 False pio_stream_state abort_ack_world =
   Some (ERR_OK,
     pio_stream_state\<lparr>cmd_hnd := 0, cmd_response := COMPLETED, cmd_status := no_error, stream_mode := - 1,
        stream_cb := 0, stream_cb_param := 0\<rparr>,
     silent_world\<lparr>trace := [Abort_command 1, Timer_ms_gettime64 100, Exec_server, Check_command 1 COMPLETED]\<rparr>)"
  by (simp add: cdrom_abort_cmd_def cdrom_abort_cmd_from_def pio_stream_state_def
      abort_ack_world_def initial_state_def
      silent_world_def log_defs emit_def timer_ms_gettime64_def abort_loop.simps
      syscall_gdrom_check_command_def cdrom_stream_set_callback_def resp_defs mode_defs)

text \<open>
  C2, as the code has it: with a live handle, \<^verbatim>\<open>cdrom_abort_cmd\<close> called with
  \<open>abort_dma\<close> while a blocking DMA transfer is in progress only issues the hardware abort
  and returns \<^verbatim>\<open>ERR_OK\<close>, the state untouched; on every other return path the handle is
  0, the stream mode is -1 and the callback is cleared.
\<close>

theorem cdrom_abort_cmd_exit:
  assumes "0 < cmd_hnd s"
  shows "(abort_dma \<and> dma_in_progress s \<and> dma_blocking s \<longrightarrow>
            cdrom_abort_cmd timeout abort_dma s w =
              Some (ERR_OK, s, syscall_gdrom_abort_command (cmd_hnd s) w)) \<and>
         (\<not> (abort_dma \<and> dma_in_progress s \<and> dma_blocking s) \<and>
          cdrom_abort_cmd timeout abort_dma s w = Some (rv, s', w') \<longrightarrow>
            cmd_hnd s' = 0 \<and> stream_mode s' = - 1 \<and> stream_cb s' = 0)"
proof -
  have blocking: "abort_dma \<and> dma_in_progress s \<and> dma_blocking s \<longrightarrow>
      cdrom_abort_cmd timeout abort_dma s w =
        Some (ERR_OK, s, syscall_gdrom_abort_command (cmd_hnd s) w)"
    using assms by (simp add: cdrom_abort_cmd_def cdrom_abort_cmd_from_def)
  have other: "\<not> (abort_dma \<and> dma_in_progress s \<and> dma_blocking s) \<and>
      cdrom_abort_cmd timeout abort_dma s w = Some (rv, s', w') \<longrightarrow>
        cmd_hnd s' = 0 \<and> stream_mode s' = - 1 \<and> stream_cb s' = 0"
    using abort_cmd_clears [OF assms] by blast
  show ?thesis
    using blocking other by (rule conjI)
qed

theorem cdrom_abort_cmd_exit_witness:
  "\<exists>rv s' w'. cdrom_abort_cmd 1000 False pio_stream_state abort_ack_world = Some (rv, s', w') \<and>
      0 < cmd_hnd pio_stream_state \<and> stream_cb pio_stream_state \<noteq> 0 \<and>
      cmd_hnd s' = 0 \<and> stream_mode s' = - 1 \<and> stream_cb s' = 0"
proof -
  obtain rv s' w' where run: "cdrom_abort_cmd 1000 False pio_stream_state abort_ack_world = Some (rv, s', w')"
    using abort_run by blast
  have live: "0 < cmd_hnd pio_stream_state" and cb: "stream_cb pio_stream_state \<noteq> 0"
    by (simp_all add: pio_stream_state_def initial_state_def)
  have "cmd_hnd s' = 0 \<and> stream_mode s' = - 1 \<and> stream_cb s' = 0"
    using cdrom_abort_cmd_exit [OF live, of False 1000 abort_ack_world rv s' w'] run by simp
  then show ?thesis using run live cb by blast
qed

text \<open>
  The blocking DMA path of \<^verbatim>\<open>cdrom_abort_cmd\<close> on a live stream: the call returns with the
  handle, the stream mode and the callback as they were.
\<close>

theorem cdrom_abort_cmd_blocking_dma_counterexample:
  "0 < cmd_hnd blocking_dma_state \<and>
   cdrom_abort_cmd 1000 True blocking_dma_state silent_world =
     Some (ERR_OK, blocking_dma_state, syscall_gdrom_abort_command 1 silent_world) \<and>
   cmd_hnd blocking_dma_state = 1 \<and>
   stream_mode blocking_dma_state = CDROM_READ_DMA_IRQ \<and>
   stream_cb blocking_dma_state = 0x8c020000"
  by (simp add: cdrom_abort_cmd_def cdrom_abort_cmd_from_def blocking_dma_state_def
      initial_state_def)

subsection \<open>Streaming: stop and request\<close>

text \<open>
  C8: \<^verbatim>\<open>cdrom_stream_stop\<close> with \<open>abort_dma\<close> set and no command in flight returns
  \<^verbatim>\<open>ERR_OK\<close> and changes neither the state nor the world; so do two such calls in a row.
\<close>

theorem cdrom_stream_stop_idle:
  assumes "cmd_hnd s \<le> 0"
  shows "cdrom_stream_stop True s w = Some (ERR_OK, s, w) \<and>
         do { (r, s1, w1) \<leftarrow> cdrom_stream_stop True s w; cdrom_stream_stop True s1 w1 }
           = Some (ERR_OK, s, w)"
  using assms by (simp add: cdrom_stream_stop_def)

theorem cdrom_stream_stop_idle_witness:
  "cmd_hnd initial_state \<le> 0 \<and>
   cdrom_stream_stop True initial_state silent_world = Some (ERR_OK, initial_state, silent_world) \<and>
   do { (r, s1, w1) \<leftarrow> cdrom_stream_stop True initial_state silent_world;
        cdrom_stream_stop True s1 w1 } = Some (ERR_OK, initial_state, silent_world)"
proof -
  have idle: "cmd_hnd initial_state \<le> 0" by (simp add: initial_state_def)
  show ?thesis
    using idle cdrom_stream_stop_idle [OF idle, of silent_world] by simp
qed

text \<open>
  C9: a \<^verbatim>\<open>cdrom_stream_request\<close> while the stream mode is \<^verbatim>\<open>CDROM_READ_PIO_IRQ\<close>, with a
  live handle, no DMA in progress and a 2-byte-aligned buffer, returns \<^verbatim>\<open>ERR_OK\<close> and
  leaves the state and the world as they were: no system call is made, no data moves.
\<close>

theorem cdrom_stream_request_pio_irq:
  assumes "stream_mode s = CDROM_READ_PIO_IRQ" and "0 < cmd_hnd s" and "\<not> dma_in_progress s"
    and "buffer AND 0x01 = 0"
  shows "cdrom_stream_request buffer size' block s w = Some (ERR_OK, s, w)"
  using assms
  by (simp add: cdrom_stream_request_def stream_request_transfer_def mode_defs)

theorem cdrom_stream_request_pio_irq_witness:
  "stream_mode pio_irq_stream_state = CDROM_READ_PIO_IRQ \<and> 0 < cmd_hnd pio_irq_stream_state \<and>
   \<not> dma_in_progress pio_irq_stream_state \<and> (0x8c010000 :: 32 word) AND 0x01 = 0 \<and>
   cdrom_stream_request 0x8c010000 2048 True pio_irq_stream_state silent_world =
     Some (ERR_OK, pio_irq_stream_state, silent_world)"
proof -
  have m: "stream_mode pio_irq_stream_state = CDROM_READ_PIO_IRQ"
    and h: "0 < cmd_hnd pio_irq_stream_state"
    and d: "\<not> dma_in_progress pio_irq_stream_state"
    by (simp_all add: pio_irq_stream_state_def initial_state_def)
  have a: "(0x8c010000 :: 32 word) AND 0x01 = 0" by simp
  show ?thesis
    using m h d a cdrom_stream_request_pio_irq [OF m h d a, of 2048 True silent_world] by simp
qed

subsection \<open>Buffer alignment\<close>

lemma cache_mask_low_bits: "(b AND MEM_AREA_CACHE_MASK) AND 0x1f = b AND (0x1f :: 32 word)"
  by (simp add: MEM_AREA_CACHE_MASK_def and.assoc)

text \<open>
  C5, as the code has it: a read in a DMA mode whose buffer address has one of its low 5
  bits set, and a read in any other mode whose address has its low bit set, returns
  \<^verbatim>\<open>ERR_SYS\<close> and has only written a line to the debug log. A stream request with such
  a buffer for the mode of the stream is rejected in the same way when a handle is live,
  and with \<^verbatim>\<open>ERR_NO_ACTIVE\<close>, nothing done at all, when none is. No system call is made
  in either case.
\<close>

theorem misaligned_buffer_rejected:
  "((mode = CDROM_READ_DMA \<or> mode = CDROM_READ_DMA_IRQ) \<and> buffer AND 0x1f \<noteq> 0 \<longrightarrow>
      cdrom_read_sectors_ex buffer sector cnt mode s w = Some (ERR_SYS, s, dbglog w)) \<and>
   (mode \<noteq> CDROM_READ_DMA \<and> mode \<noteq> CDROM_READ_DMA_IRQ \<and> buffer AND 0x01 \<noteq> 0 \<longrightarrow>
      cdrom_read_sectors_ex buffer sector cnt mode s w = Some (ERR_SYS, s, dbglog w)) \<and>
   ((stream_mode s = CDROM_READ_DMA \<or> stream_mode s = CDROM_READ_DMA_IRQ) \<and> buffer AND 0x1f \<noteq> 0 \<or>
    stream_mode s \<noteq> CDROM_READ_DMA \<and> stream_mode s \<noteq> CDROM_READ_DMA_IRQ \<and> buffer AND 0x01 \<noteq> 0 \<longrightarrow>
      cdrom_stream_request buffer size' block s w =
        (if cmd_hnd s \<le> 0 then Some (ERR_NO_ACTIVE, s, w) else Some (ERR_SYS, s, dbglog w)))"
proof -
  have dma_read: "(mode = CDROM_READ_DMA \<or> mode = CDROM_READ_DMA_IRQ) \<and> buffer AND 0x1f \<noteq> 0 \<longrightarrow>
      cdrom_read_sectors_ex buffer sector cnt mode s w = Some (ERR_SYS, s, dbglog w)"
    by (simp add: cdrom_read_sectors_ex_def)
  have pio_read: "mode \<noteq> CDROM_READ_DMA \<and> mode \<noteq> CDROM_READ_DMA_IRQ \<and> buffer AND 0x01 \<noteq> 0 \<longrightarrow>
      cdrom_read_sectors_ex buffer sector cnt mode s w = Some (ERR_SYS, s, dbglog w)"
    by (simp add: cdrom_read_sectors_ex_def)
  have request: "(stream_mode s = CDROM_READ_DMA \<or> stream_mode s = CDROM_READ_DMA_IRQ) \<and> buffer AND 0x1f \<noteq> 0 \<or>
      stream_mode s \<noteq> CDROM_READ_DMA \<and> stream_mode s \<noteq> CDROM_READ_DMA_IRQ \<and> buffer AND 0x01 \<noteq> 0 \<longrightarrow>
      cdrom_stream_request buffer size' block s w =
        (if cmd_hnd s \<le> 0 then Some (ERR_NO_ACTIVE, s, w) else Some (ERR_SYS, s, dbglog w))"
    by (auto simp: cdrom_stream_request_def cache_mask_low_bits)
  show ?thesis using dma_read pio_read request by blast
qed

theorem misaligned_buffer_rejected_witness:
  "cdrom_read_sectors_ex 0x8c010004 150 1 CDROM_READ_DMA initial_state silent_world =
     Some (ERR_SYS, initial_state, dbglog silent_world) \<and>
   cdrom_read_sectors_ex 0x8c010001 150 1 CDROM_READ_PIO initial_state silent_world =
     Some (ERR_SYS, initial_state, dbglog silent_world) \<and>
   cdrom_stream_request 0x8c010004 2048 True dma_stream_state silent_world =
     Some (ERR_SYS, dma_stream_state, dbglog silent_world) \<and>
   cdrom_stream_request 0x8c010001 2048 True pio_stream_state silent_world =
     Some (ERR_SYS, pio_stream_state, dbglog silent_world)"
proof -
  have a: "cdrom_read_sectors_ex 0x8c010004 150 1 CDROM_READ_DMA initial_state silent_world =
     Some (ERR_SYS, initial_state, dbglog silent_world)"
    using misaligned_buffer_rejected [where mode = CDROM_READ_DMA and buffer = "0x8c010004"
        and sector = 150 and cnt = 1 and s = initial_state and w = silent_world]
    by simp
  have b: "cdrom_read_sectors_ex 0x8c010001 150 1 CDROM_READ_PIO initial_state silent_world =
     Some (ERR_SYS, initial_state, dbglog silent_world)"
    using misaligned_buffer_rejected [where mode = CDROM_READ_PIO and buffer = "0x8c010001"
        and sector = 150 and cnt = 1 and s = initial_state and w = silent_world]
    by (simp add: mode_defs)
  have c: "cdrom_stream_request 0x8c010004 2048 True dma_stream_state silent_world =
     Some (ERR_SYS, dma_stream_state, dbglog silent_world)"
    using misaligned_buffer_rejected [where buffer = "0x8c010004" and s = dma_stream_state
        and size' = 2048 and block = True and w = silent_world]
    by (simp add: dma_stream_state_def initial_state_def)
  have d: "cdrom_stream_request 0x8c010001 2048 True pio_stream_state silent_world =
     Some (ERR_SYS, pio_stream_state, dbglog silent_world)"
    using misaligned_buffer_rejected [where buffer = "0x8c010001" and s = pio_stream_state
        and size' = 2048 and block = True and w = silent_world]
    by (simp add: pio_stream_state_def initial_state_def mode_defs)
  show ?thesis using a b c d by simp
qed

text \<open>
  A DMA stream whose command completed at once keeps its mode and has no handle; a
  request with a misaligned buffer then returns \<^verbatim>\<open>ERR_NO_ACTIVE\<close>, not \<^verbatim>\<open>ERR_SYS\<close>.
\<close>

theorem stream_request_no_handle_counterexample:
  "cdrom_stream_start 150 16 CDROM_READ_DMA initial_state complete_at_once_world =
     Some (ERR_OK, finished_dma_stream_state,
           silent_world\<lparr>trace := [Send_command CMD_DMAREAD_STREAM [150, 16] 1, Exec_server,
                                   Check_command 1 COMPLETED]\<rparr>) \<and>
   stream_mode finished_dma_stream_state = CDROM_READ_DMA \<and>
   (0x8c010004 :: 32 word) AND 0x1f \<noteq> 0 \<and>
   cdrom_stream_request 0x8c010004 2048 True finished_dma_stream_state silent_world =
     Some (ERR_NO_ACTIVE, finished_dma_stream_state, silent_world) \<and>
   ERR_NO_ACTIVE \<noteq> ERR_SYS"
  by (simp add: cdrom_stream_start_def cdrom_exec_cmd_ex_def exec_wait_def cdrom_req_cmd_def req_loop.simps
      cdrom_poll_cmd_def poll_loop.simps cdrom_stream_request_def
      finished_dma_stream_state_def complete_at_once_world_def initial_state_def silent_world_def
      no_error_def run_defs err_defs resp_defs mode_defs cmd_defs)

subsection \<open>The result of a synchronous command\<close>









subsection \<open>The callback on the last chunk of a PIO request\<close>

lemma pio_check_Some:
  "syscall_gdrom_pio_check h w = Some ((rc, sz), w2) \<Longrightarrow>
   trace w2 = trace w @ [Pio_check h rc sz] \<and> check_results w2 = check_results w"
  by (auto simp: syscall_gdrom_pio_check_def split: list.splits)

lemma stream_pio_loop_callback:
  "stream_pio_loop s w = Some (rv, s', w') \<Longrightarrow>
   \<exists>evs. trace w' = trace w @ evs \<and>
     count_list evs (Stream_cb cb p) =
       (if (\<exists>h. Pio_check h 0 0 \<in> set evs) \<and> stream_cb s \<noteq> 0 \<and>
           cb = stream_cb s \<and> p = stream_cb_param s then 1 else 0)"
proof (induction "check_results w" arbitrary: s w)
  case Nil
  then show ?case
    by (simp add: stream_pio_loop.simps [of s w] check_command_Nil)
next
  case (Cons r rs)
  obtain resp st where r: "r = (resp, st)" by (cases r)
  define w1 where
    "w1 = emit (Check_command (cmd_hnd s) resp) ((syscall_gdrom_exec_server w)\<lparr>check_results := rs\<rparr>)"
  define s1 where "s1 = s\<lparr>cmd_response := resp, cmd_status := st\<rparr>"
  have chk: "syscall_gdrom_check_command (cmd_hnd s) (syscall_gdrom_exec_server w) = Some ((resp, st), w1)"
    using Cons.hyps(2) r unfolding w1_def by (intro check_command_Cons) simp
  have rs: "rs = check_results w1" by (simp add: w1_def)
  have tr1: "trace w1 = trace w @ [Exec_server, Check_command (cmd_hnd s) resp]"
    by (simp add: w1_def log_defs)
  have s1: "stream_cb s1 = stream_cb s" "stream_cb_param s1 = stream_cb_param s" "cmd_hnd s1 = cmd_hnd s"
    by (simp_all add: s1_def)
  have step: "stream_pio_loop s w =
     (if resp < 0 then Some (ERR_SYS, s1, w1)
      else if resp = COMPLETED \<or> resp = NO_ACTIVE then Some (ERR_OK, s1\<lparr>cmd_hnd := 0\<rparr>, w1)
      else (case syscall_gdrom_pio_check (cmd_hnd s1) w1 of
              None \<Rightarrow> None
            | Some ((rc, check_size), w2) \<Rightarrow>
                if rc = 0 then
                  Some (ERR_OK, s1,
                        if check_size = 0 \<and> stream_cb s1 \<noteq> 0 then
                          emit (Stream_cb (stream_cb s1) (stream_cb_param s1)) w2
                        else w2)
                else stream_pio_loop s1 (thd_pass w2)))"
    unfolding s1_def by (simp add: stream_pio_loop.simps [of s w] chk Let_def)
  show ?case
  proof (cases "resp < 0 \<or> resp = COMPLETED \<or> resp = NO_ACTIVE")
    case True
    then have "w' = w1" using Cons.prems step by (auto split: if_splits)
    then show ?thesis using tr1 by simp
  next
    case False
    then obtain rc sz w2 where
      pc: "syscall_gdrom_pio_check (cmd_hnd s1) w1 = Some ((rc, sz), w2)"
      using Cons.prems step by (cases "syscall_gdrom_pio_check (cmd_hnd s1) w1") auto
    have tr2: "trace w2 = trace w @ [Exec_server, Check_command (cmd_hnd s) resp, Pio_check (cmd_hnd s) rc sz]"
      using pio_check_Some [OF pc] tr1 s1 by simp
    show ?thesis
    proof (cases "rc = 0")
      case True
      then have w': "w' = (if sz = 0 \<and> stream_cb s \<noteq> 0 then
                         emit (Stream_cb (stream_cb s) (stream_cb_param s)) w2 else w2)"
        using Cons.prems step False pc s1 by auto
      show ?thesis
      proof (cases "sz = 0 \<and> stream_cb s \<noteq> 0")
        case True
        then have "trace w' = trace w @ [Exec_server, Check_command (cmd_hnd s) resp,
            Pio_check (cmd_hnd s) 0 0, Stream_cb (stream_cb s) (stream_cb_param s)]"
          using w' tr2 \<open>rc = 0\<close> by simp
        then show ?thesis using True by auto
      next
        case no: False
        then have "trace w' = trace w @ [Exec_server, Check_command (cmd_hnd s) resp,
            Pio_check (cmd_hnd s) 0 sz]"
          using w' tr2 \<open>rc = 0\<close> by auto
        then show ?thesis using no by auto
      qed
    next
      case again: False
      then have rec: "stream_pio_loop s1 (thd_pass w2) = Some (rv, s', w')"
        using Cons.prems step False pc by simp
      have "rs = check_results (thd_pass w2)"
        using rs pio_check_Some [OF pc] by (simp add: log_defs)
      from Cons.hyps(1) [OF this rec] obtain evs where
        evs: "trace w' = trace (thd_pass w2) @ evs"
        and cnt: "count_list evs (Stream_cb cb p) =
          (if (\<exists>h. Pio_check h 0 0 \<in> set evs) \<and> stream_cb s1 \<noteq> 0 \<and>
              cb = stream_cb s1 \<and> p = stream_cb_param s1 then 1 else 0)"
        by blast
      let ?pre = "[Exec_server, Check_command (cmd_hnd s) resp, Pio_check (cmd_hnd s) rc sz, Thd_pass]"
      have "trace w' = trace w @ (?pre @ evs)"
        using evs tr2 by (simp add: log_defs)
      moreover have "count_list (?pre @ evs) (Stream_cb cb p) =
          (if (\<exists>h. Pio_check h 0 0 \<in> set (?pre @ evs)) \<and> stream_cb s \<noteq> 0 \<and>
              cb = stream_cb s \<and> p = stream_cb_param s then 1 else 0)"
        using cnt again s1 by auto
      ultimately show ?thesis by blast
    qed
  qed
qed

text \<open>
  C6: a \<^verbatim>\<open>cdrom_stream_request\<close> on a PIO stream with a callback registered, once it
  returns, has called the registered callback with its stored parameter exactly once if
  a progress check reported completion (0) with nothing remaining, and not at all
  otherwise; it has called no other callback.
\<close>

theorem cdrom_stream_request_pio_callback:
  assumes "stream_mode s = CDROM_READ_PIO" and "0 < cmd_hnd s" and "\<not> dma_in_progress s"
    and "buffer AND 0x01 = 0" and "stream_cb s \<noteq> 0"
    and "cdrom_stream_request buffer size' block s w = Some (rv, s', w')"
  shows "\<exists>evs. trace w' = trace w @ evs \<and>
           count_list evs (Stream_cb cb p) =
             (if (\<exists>h. Pio_check h 0 0 \<in> set evs) \<and> cb = stream_cb s \<and> p = stream_cb_param s
              then 1 else 0)"
proof -
  have req: "cdrom_stream_request buffer size' block s w =
      (case syscall_gdrom_pio_transfer (cmd_hnd s) (buffer, size') w of
         None \<Rightarrow> None
       | Some (rs, w1) \<Rightarrow> if rs < 0 then Some (ERR_SYS, s, w1) else stream_pio_loop s w1)"
    using assms(1-4)
    by (simp add: cdrom_stream_request_def stream_request_transfer_def mode_defs
        split: option.splits)
  obtain rs w1 where
    xfer: "syscall_gdrom_pio_transfer (cmd_hnd s) (buffer, size') w = Some (rs, w1)"
    using assms(6) req by (cases "syscall_gdrom_pio_transfer (cmd_hnd s) (buffer, size') w") auto
  have tr1: "trace w1 = trace w @ [Pio_transfer (cmd_hnd s) buffer size' rs]"
    using xfer by (auto simp: syscall_gdrom_pio_transfer_def split: list.splits)
  show ?thesis
  proof (cases "rs < 0")
    case True
    then have "w' = w1" using assms(6) req xfer by simp
    then show ?thesis using tr1 by auto
  next
    case False
    then have "stream_pio_loop s w1 = Some (rv, s', w')"
      using assms(6) req xfer by simp
    from stream_pio_loop_callback [OF this, of cb p] obtain evs where
      evs: "trace w' = trace w1 @ evs"
      and cnt: "count_list evs (Stream_cb cb p) =
        (if (\<exists>h. Pio_check h 0 0 \<in> set evs) \<and> stream_cb s \<noteq> 0 \<and>
            cb = stream_cb s \<and> p = stream_cb_param s then 1 else 0)"
      by blast
    have "trace w' = trace w @ (Pio_transfer (cmd_hnd s) buffer size' rs # evs)"
      using evs tr1 by simp
    moreover have "count_list (Pio_transfer (cmd_hnd s) buffer size' rs # evs) (Stream_cb cb p) =
        (if (\<exists>h. Pio_check h 0 0 \<in> set (Pio_transfer (cmd_hnd s) buffer size' rs # evs)) \<and>
            cb = stream_cb s \<and> p = stream_cb_param s then 1 else 0)"
      using cnt assms(5) by auto
    ultimately show ?thesis by blast
  qed
qed

lemma last_chunk_run:
  "\<exists>s' w'. cdrom_stream_request 0x8c010000 2048 True pio_stream_state last_chunk_world =
      Some (ERR_OK, s', w') \<and>
     trace w' = [Pio_transfer 1 0x8c010000 2048 0,
                 Exec_server, Check_command 1 STREAMING, Pio_check 1 1 1024, Thd_pass,
                 Exec_server, Check_command 1 STREAMING, Pio_check 1 0 0,
                 Stream_cb 0x8c020000 0x8c030000]"
  by (simp add: cdrom_stream_request_def stream_request_transfer_def stream_pio_loop.simps
      pio_stream_state_def last_chunk_world_def silent_world_def initial_state_def no_error_def
      run_defs err_defs resp_defs mode_defs)

theorem cdrom_stream_request_pio_callback_witness:
  "\<exists>s' w' evs. cdrom_stream_request 0x8c010000 2048 True pio_stream_state last_chunk_world =
      Some (ERR_OK, s', w') \<and>
     trace w' = trace last_chunk_world @ evs \<and> Pio_check 1 0 0 \<in> set evs \<and>
     count_list evs (Stream_cb 0x8c020000 0x8c030000) = 1"
proof -
  obtain s' w' where
    run: "cdrom_stream_request 0x8c010000 2048 True pio_stream_state last_chunk_world =
      Some (ERR_OK, s', w')"
    and tr: "trace w' = [Pio_transfer 1 0x8c010000 2048 0,
                 Exec_server, Check_command 1 STREAMING, Pio_check 1 1 1024, Thd_pass,
                 Exec_server, Check_command 1 STREAMING, Pio_check 1 0 0,
                 Stream_cb 0x8c020000 0x8c030000]"
    using last_chunk_run by blast
  have st: "stream_mode pio_stream_state = CDROM_READ_PIO" "0 < cmd_hnd pio_stream_state"
    "\<not> dma_in_progress pio_stream_state" "(0x8c010000 :: 32 word) AND 0x01 = 0"
    "stream_cb pio_stream_state \<noteq> 0"
    by (simp_all add: pio_stream_state_def initial_state_def)
  have cb: "stream_cb pio_stream_state = 0x8c020000" "stream_cb_param pio_stream_state = 0x8c030000"
    by (simp_all add: pio_stream_state_def initial_state_def)
  have t0: "trace last_chunk_world = []"
    by (simp add: last_chunk_world_def silent_world_def)
  from cdrom_stream_request_pio_callback [OF st run, of "0x8c020000" "0x8c030000"]
  obtain evs where evs: "trace w' = trace last_chunk_world @ evs"
    and cnt: "count_list evs (Stream_cb 0x8c020000 0x8c030000) =
      (if (\<exists>h. Pio_check h 0 0 \<in> set evs) \<and> 0x8c020000 = stream_cb pio_stream_state \<and>
          0x8c030000 = stream_cb_param pio_stream_state then 1 else 0)"
    by blast
  have mem: "Pio_check 1 0 0 \<in> set evs" using evs tr t0 by auto
  then have "count_list evs (Stream_cb 0x8c020000 0x8c030000) = 1"
    using cnt cb by auto
  then show ?thesis using run evs mem by blast
qed

subsection \<open>Timeout of a poll\<close>

lemma req_loop_keeps:
  "req_loop cmd param n hnd w = Some (h, w1) \<Longrightarrow>
   check_results w1 = check_results w \<and> timer_readings w1 = timer_readings w"
proof (induction "send_results w" arbitrary: n hnd w)
  case Nil
  then show ?case
    by (simp add: req_loop.simps [of cmd param n hnd w] syscall_gdrom_send_command_def
        split: if_splits)
next
  case (Cons x xs)
  show ?case
  proof (cases "n < 10")
    case False
    then show ?thesis using Cons.prems by (simp add: req_loop.simps [of cmd param n hnd w])
  next
    case True
    define w' where "w' = emit (Send_command cmd param x) (w\<lparr>send_results := xs\<rparr>)"
    have send: "syscall_gdrom_send_command cmd param w = Some (x, w')"
      using Cons.hyps(2) [symmetric] by (simp add: syscall_gdrom_send_command_def w'_def)
    have keep: "check_results w' = check_results w" "timer_readings w' = timer_readings w"
      by (simp_all add: w'_def)
    show ?thesis
    proof (cases "x = 0")
      case False
      then have "w1 = w'" using Cons.prems True send
        by (simp add: req_loop.simps [of cmd param n hnd w])
      then show ?thesis using keep by simp
    next
      case zero: True
      let ?w2 = "thd_pass (syscall_gdrom_exec_server w')"
      have rec: "req_loop cmd param (n + 1) x ?w2 = Some (h, w1)"
        using Cons.prems True send zero by (simp add: req_loop.simps [of cmd param n hnd w])
      have "xs = send_results ?w2" by (simp add: w'_def log_defs)
      from Cons.hyps(1) [OF this rec] show ?thesis using keep by (simp add: log_defs)
    qed
  qed
qed

lemma cdrom_req_cmd_keeps:
  "cdrom_req_cmd cmd param w = Some (h, w1) \<Longrightarrow>
   check_results w1 = check_results w \<and> timer_readings w1 = timer_readings w"
  by (auto simp: cdrom_req_cmd_def split: if_splits dest: req_loop_keeps)

lemma poll_loop_timeout:
  assumes "timeout \<noteq> 0"
  shows "check_results w = pre @ post \<Longrightarrow> pre \<noteq> [] \<Longrightarrow>
    \<forall>r\<in>set pre. fst r = PROCESSING \<or> fst r = BUSY \<Longrightarrow>
    timer_readings w = ts @ later \<Longrightarrow> length ts = length pre \<Longrightarrow>
    \<forall>t\<in>set (butlast ts). \<not> expired t t0 timeout \<Longrightarrow> expired (last ts) t0 timeout \<Longrightarrow>
    \<exists>w1. check_results w1 = post \<and> timer_readings w1 = later \<and>
      poll_loop hnd timeout t0 s w =
        (case cdrom_abort_cmd_from True 500 False
                (s\<lparr>cmd_response := fst (last pre), cmd_status := snd (last pre)\<rparr>) w1 of
           None \<Rightarrow> None
         | Some (r, s2, w3) \<Rightarrow> Some (ERR_TIMEOUT, s2, dbglog w3))"
proof (induction pre arbitrary: ts s w)
  case Nil
  then show ?case by simp
next
  case (Cons r pre)
  obtain resp st where r: "r = (resp, st)" by (cases r)
  obtain t ts' where ts: "ts = t # ts'" using Cons.prems(5) by (cases ts) auto
  define w1 where
    "w1 = emit (Check_command hnd resp)
            ((syscall_gdrom_exec_server w)\<lparr>check_results := pre @ post\<rparr>)"
  define w2 where "w2 = emit (Timer_ms_gettime64 t) (w1\<lparr>timer_readings := ts' @ later\<rparr>)"
  define s1 where "s1 = s\<lparr>cmd_response := resp, cmd_status := st\<rparr>"
  have chk: "syscall_gdrom_check_command hnd (syscall_gdrom_exec_server w) = Some ((resp, st), w1)"
    using Cons.prems(1) r unfolding w1_def by (intro check_command_Cons) simp
  have tm: "timer_ms_gettime64 w1 = Some (t, w2)"
    using Cons.prems(4) ts by (simp add: timer_ms_gettime64_def w1_def w2_def log_defs)
  have busy: "\<not> (resp \<noteq> PROCESSING \<and> resp \<noteq> BUSY)"
    using Cons.prems(3) r by auto
  have step: "poll_loop hnd timeout t0 s w =
     (if expired t t0 timeout then
        (case cdrom_abort_cmd_from True 500 False s1 w2 of
           None \<Rightarrow> None
         | Some (r, s2, w3) \<Rightarrow> Some (ERR_TIMEOUT, s2, dbglog w3))
      else poll_loop hnd timeout t0 s1 (thd_pass w2))"
    using busy assms unfolding s1_def
    by (auto simp: poll_loop.simps [of hnd timeout t0 s w] chk tm Let_def)
  show ?case
  proof (cases "pre = []")
    case True
    then have "ts' = []" using Cons.prems(5) ts by simp
    then have ex: "expired t t0 timeout" using Cons.prems(7) ts by simp
    have "check_results w2 = post" "timer_readings w2 = later"
      using True \<open>ts' = []\<close> by (simp_all add: w2_def w1_def)
    moreover have "poll_loop hnd timeout t0 s w =
        (case cdrom_abort_cmd_from True 500 False
                (s\<lparr>cmd_response := fst (last (r # pre)), cmd_status := snd (last (r # pre))\<rparr>) w2 of
           None \<Rightarrow> None
         | Some (r, s2, w3) \<Rightarrow> Some (ERR_TIMEOUT, s2, dbglog w3))"
      using step ex True r by (simp add: s1_def)
    ultimately show ?thesis by blast
  next
    case False
    then have ne: "ts' \<noteq> []" using Cons.prems(5) ts by auto
    have live: "\<not> expired t t0 timeout" using Cons.prems(6) ts ne by simp
    have a: "check_results (thd_pass w2) = pre @ post"
      by (simp add: w2_def w1_def log_defs)
    have b: "\<forall>r\<in>set pre. fst r = PROCESSING \<or> fst r = BUSY" using Cons.prems(3) by simp
    have c: "timer_readings (thd_pass w2) = ts' @ later" by (simp add: w2_def log_defs)
    have d: "length ts' = length pre" using Cons.prems(5) ts by simp
    have e: "\<forall>t\<in>set (butlast ts'). \<not> expired t t0 timeout" using Cons.prems(6) ts ne by simp
    have f: "expired (last ts') t0 timeout" using Cons.prems(7) ts ne by simp
    from Cons.IH [OF a False b c d e f, of s1] obtain w3 where
      w3: "check_results w3 = post" "timer_readings w3 = later"
      and run: "poll_loop hnd timeout t0 s1 (thd_pass w2) =
        (case cdrom_abort_cmd_from True 500 False
                (s1\<lparr>cmd_response := fst (last pre), cmd_status := snd (last pre)\<rparr>) w3 of
           None \<Rightarrow> None
         | Some (r, s2, w3) \<Rightarrow> Some (ERR_TIMEOUT, s2, dbglog w3))"
      by blast
    have "poll_loop hnd timeout t0 s w =
        (case cdrom_abort_cmd_from True 500 False
                (s\<lparr>cmd_response := fst (last (r # pre)), cmd_status := snd (last (r # pre))\<rparr>) w3 of
           None \<Rightarrow> None
         | Some (r, s2, w3) \<Rightarrow> Some (ERR_TIMEOUT, s2, dbglog w3))"
      using step live run False by (simp add: s1_def)
    then show ?thesis using w3 by blast
  qed
qed

lemma abort_cmd_acknowledged:
  assumes "0 < cmd_hnd s" and "check_results w = (COMPLETED, st) # cs"
    and "timer_readings w = t # ts"
  shows "\<exists>s2 w3. cdrom_abort_cmd 500 False s w = Some (ERR_OK, s2, w3) \<and> cmd_hnd s2 = 0"
  using assms
  by (simp add: cdrom_abort_cmd_def cdrom_abort_cmd_from_def abort_loop.simps
      timer_ms_gettime64_def syscall_gdrom_check_command_def log_defs
      cdrom_stream_set_callback_def Let_def)

text \<open>
  C4, where the code fails it: let the timeout be nonzero, the submission obtain a
  handle, every response of the poll be \<^verbatim>\<open>PROCESSING\<close> or \<^verbatim>\<open>BUSY\<close> (\<open>pre\<close>), and the clock,
  read after each of them (\<open>ts\<close>), reach the timeout only at the last one. Then
  \<^verbatim>\<open>cdrom_poll_cmd\<close> calls \<^verbatim>\<open>cdrom_abort_cmd(500, false)\<close> on the live handle, as the claim
  says; but the call is made with the device mutex held by \<^verbatim>\<open>cdrom_exec_cmd_ex\<close>, and its
  \<^verbatim>\<open>mutex_lock\<close> never returns. Whatever the firmware and the clock do afterwards (\<open>post\<close>,
  \<open>later\<close>), neither the poll nor \<^verbatim>\<open>cdrom_exec_cmd_ex\<close> returns: no timeout error comes
  back and the handle is not cleared.
\<close>

theorem cdrom_poll_cmd_timeout_blocks:
  assumes "timeout \<noteq> 0"
    and "cdrom_req_cmd cmd param w = Some (hnd, wr)" and "0 < hnd"
    and "check_results w = pre @ post" and "pre \<noteq> []"
    and "\<forall>r\<in>set pre. fst r = PROCESSING \<or> fst r = BUSY"
    and "timer_readings w = t0 # ts @ later" and "length ts = length pre"
    and "\<forall>t\<in>set (butlast ts). \<not> expired t t0 timeout" and "expired (last ts) t0 timeout"
  shows "\<exists>s1 w1. cmd_hnd s1 = hnd \<and> check_results w1 = post \<and> timer_readings w1 = later \<and>
     cdrom_poll_cmd hnd timeout (s\<lparr>cmd_hnd := hnd\<rparr>) wr =
       (case cdrom_abort_cmd_from True 500 False s1 w1 of
          None \<Rightarrow> None
        | Some (r, s2, w3) \<Rightarrow> Some (ERR_TIMEOUT, s2, dbglog w3)) \<and>
     cdrom_abort_cmd_from True 500 False s1 w1 = None \<and>
     cdrom_poll_cmd hnd timeout (s\<lparr>cmd_hnd := hnd\<rparr>) wr = None \<and>
     cdrom_exec_cmd_ex cmd param timeout False s w = None"
proof -
  have keep: "check_results wr = pre @ post" "timer_readings wr = t0 # ts @ later"
    using cdrom_req_cmd_keeps [OF assms(2)] assms(4,7) by simp_all
  define wt where "wt = emit (Timer_ms_gettime64 t0) (wr\<lparr>timer_readings := ts @ later\<rparr>)"
  have tm: "timer_ms_gettime64 wr = Some (t0, wt)"
    using keep(2) by (simp add: timer_ms_gettime64_def wt_def)
  have a: "check_results wt = pre @ post" and b: "timer_readings wt = ts @ later"
    using keep(1) by (simp_all add: wt_def)
  define s1 where
    "s1 = s\<lparr>cmd_hnd := hnd, cmd_response := fst (last pre), cmd_status := snd (last pre)\<rparr>"
  from poll_loop_timeout [OF assms(1) a assms(5,6) b assms(8,9,10), of hnd "s\<lparr>cmd_hnd := hnd\<rparr>"]
  obtain w1 where w1: "check_results w1 = post" "timer_readings w1 = later"
    and loop: "poll_loop hnd timeout t0 (s\<lparr>cmd_hnd := hnd\<rparr>) wt =
      (case cdrom_abort_cmd_from True 500 False s1 w1 of
         None \<Rightarrow> None
       | Some (r, s2, w3) \<Rightarrow> Some (ERR_TIMEOUT, s2, dbglog w3))"
    unfolding s1_def by auto
  have live: "0 < cmd_hnd s1" "cmd_hnd s1 = hnd" using assms(3) by (simp_all add: s1_def)
  have poll: "cdrom_poll_cmd hnd timeout (s\<lparr>cmd_hnd := hnd\<rparr>) wr =
      (case cdrom_abort_cmd_from True 500 False s1 w1 of
         None \<Rightarrow> None
       | Some (r, s2, w3) \<Rightarrow> Some (ERR_TIMEOUT, s2, dbglog w3))"
    using assms(1) tm loop by (simp add: cdrom_poll_cmd_def)
  have blocked: "cdrom_abort_cmd_from True 500 False s1 w1 = None"
    using live(1) by (simp add: cdrom_abort_cmd_from_def)
  have poll_none: "cdrom_poll_cmd hnd timeout (s\<lparr>cmd_hnd := hnd\<rparr>) wr = None"
    using poll blocked by simp
  have exec: "cdrom_exec_cmd_ex cmd param timeout False s w = None"
    using assms(2,3) poll_none by (simp add: cdrom_exec_cmd_ex_def exec_wait_def)
  show ?thesis using live(2) w1 poll blocked poll_none exec by blast
qed

lemma timeout_req:
  "cdrom_req_cmd CMD_PIOREAD [150, 1, 0x8c010000, 0] timeout_world =
     Some (1, emit (Send_command CMD_PIOREAD [150, 1, 0x8c010000, 0] 1)
                (timeout_world\<lparr>send_results := []\<rparr>))"
  by (simp add: cdrom_req_cmd_def req_loop.simps timeout_world_def silent_world_def
      cmd_defs run_defs)

text \<open>
  In the run of the example the firmware would acknowledge the abort at once and the
  clock has a reading left: entered without the mutex, the same \<^verbatim>\<open>cdrom_abort_cmd\<close> on the
  same state returns and clears the handle. It is the lock that keeps the call from
  returning, not the script.
\<close>

theorem cdrom_poll_cmd_timeout_blocks_witness:
  "cdrom_exec_cmd_ex CMD_PIOREAD [150, 1, 0x8c010000, 0] 10 False initial_state timeout_world
     = None \<and>
   (\<exists>s1 w1 s2 w3. cmd_hnd s1 = 1 \<and> cdrom_abort_cmd_from True 500 False s1 w1 = None \<and>
      cdrom_abort_cmd 500 False s1 w1 = Some (ERR_OK, s2, w3) \<and> cmd_hnd s2 = 0)"
proof -
  let ?pre = "[(PROCESSING, no_error), (PROCESSING, no_error)]"
  have t: "(10 :: 32 word) \<noteq> 0" by simp
  have h: "(0 :: int) < 1" by simp
  have c: "check_results timeout_world = ?pre @ [(COMPLETED, no_error)]"
    and ne: "?pre \<noteq> []"
    and busy: "\<forall>r\<in>set ?pre. fst r = PROCESSING \<or> fst r = BUSY"
    and tr: "timer_readings timeout_world = 1000 # [1004, 1012] @ [1012]"
    and len: "length [1004, 1012 :: 64 word] = length ?pre"
    and early: "\<forall>t\<in>set (butlast [1004, 1012 :: 64 word]). \<not> expired t 1000 10"
    and late: "expired (last [1004, 1012 :: 64 word]) 1000 10"
    by (simp_all add: timeout_world_def silent_world_def expired_def)
  from cdrom_poll_cmd_timeout_blocks [OF t timeout_req h c ne busy tr len early late, of initial_state]
  obtain s1 w1 where s1: "cmd_hnd s1 = 1"
    and scripts: "check_results w1 = [(COMPLETED, no_error)]" "timer_readings w1 = [1012]"
    and blocked: "cdrom_abort_cmd_from True 500 False s1 w1 = None"
    and exec: "cdrom_exec_cmd_ex CMD_PIOREAD [150, 1, 0x8c010000, 0] 10 False initial_state
        timeout_world = None"
    by blast
  have "0 < cmd_hnd s1" using s1 by simp
  from abort_cmd_acknowledged [OF this scripts] obtain s2 w3 where
    "cdrom_abort_cmd 500 False s1 w1 = Some (ERR_OK, s2, w3)" "cmd_hnd s2 = 0"
    by blast
  then show ?thesis using exec s1 blocked by blast
qed

subsection \<open>A new command while a stream is active\<close>

lemma stream_stop_loop_return:
  "0 < cmd_hnd s \<Longrightarrow> stream_stop_loop s w = Some (Return r, s', w') \<Longrightarrow>
   cmd_hnd s' = 0 \<and> stream_mode s' = - 1 \<and> stream_cb s' = 0"
proof (induction "check_results w" arbitrary: s w)
  case Nil
  then show ?case
    by (simp add: stream_stop_loop.simps [of s w] check_command_Nil)
next
  case (Cons x xs)
  obtain resp st where x: "x = (resp, st)" by (cases x)
  define w1 where
    "w1 = emit (Check_command (cmd_hnd s) resp) ((syscall_gdrom_exec_server w)\<lparr>check_results := xs\<rparr>)"
  define s1 where "s1 = s\<lparr>cmd_response := resp, cmd_status := st\<rparr>"
  have chk: "syscall_gdrom_check_command (cmd_hnd s) (syscall_gdrom_exec_server w) = Some ((resp, st), w1)"
    using Cons.hyps(2) x unfolding w1_def by (intro check_command_Cons) simp
  have live: "0 < cmd_hnd s1" using Cons.prems(1) by (simp add: s1_def)
  have step: "stream_stop_loop s w =
     (if resp < 0 then Some (Break ERR_SYS, s1, w1)
      else if resp = COMPLETED \<or> resp = NO_ACTIVE then Some (Break ERR_OK, s1, w1)
      else if resp = STREAMING then
        (case cdrom_abort_cmd 1000 False s1 w1 of
           None \<Rightarrow> None
         | Some (r, s2, w2) \<Rightarrow> Some (Return r, s2, w2))
      else stream_stop_loop s1 (thd_pass w1))"
    unfolding s1_def by (simp add: stream_stop_loop.simps [of s w] chk Let_def)
  show ?case
  proof (cases "resp < 0 \<or> resp = COMPLETED \<or> resp = NO_ACTIVE")
    case True
    then show ?thesis using Cons.prems(2) step by (auto split: if_splits)
  next
    case False
    show ?thesis
    proof (cases "resp = STREAMING")
      case True
      then have "cdrom_abort_cmd 1000 False s1 w1 = Some (r, s', w')"
        using Cons.prems(2) step False by (auto split: option.splits)
      then show ?thesis using abort_cmd_clears [OF live, of False 1000 w1 r s' w'] by simp
    next
      case other: False
      then have rec: "stream_stop_loop s1 (thd_pass w1) = Some (Return r, s', w')"
        using Cons.prems(2) step False by simp
      have "xs = check_results (thd_pass w1)" by (simp add: w1_def log_defs)
      from Cons.hyps(1) [OF this live rec] show ?thesis .
    qed
  qed
qed

lemma cdrom_stream_stop_stops:
  assumes "0 < cmd_hnd s" and "cdrom_stream_stop False s w = Some (r, s', w')"
  shows "cmd_hnd s' = 0 \<and> stream_mode s' = - 1 \<and> stream_cb s' = 0"
proof -
  obtain ex s1 w1 where loop: "stream_stop_loop s w = Some (ex, s1, w1)"
    using assms by (cases "stream_stop_loop s w") (auto simp: cdrom_stream_stop_def)
  show ?thesis
  proof (cases ex)
    case (Return r')
    then have "s' = s1" using assms loop by (simp add: cdrom_stream_stop_def)
    then show ?thesis using stream_stop_loop_return [OF assms(1)] loop Return by simp
  next
    case (Break rv)
    then show ?thesis
      using assms loop
      by (auto simp: cdrom_stream_stop_def cdrom_stream_set_callback_def Let_def
          split: if_splits)
  qed
qed

text \<open>
  C1, as the code has it: the driver has one handle, \<^verbatim>\<open>cmd_hnd\<close>. A
  \<^verbatim>\<open>cdrom_stream_start\<close> while a stream is active with a live handle first runs
  \<^verbatim>\<open>cdrom_stream_stop(false)\<close>, which leaves the handle 0, the stream mode -1 and the
  callback cleared, and then proceeds as a start from that stopped state: only there is
  the new handle obtained.
\<close>

theorem cdrom_stream_start_stops_first:
  assumes "stream_mode s \<noteq> - 1" and "0 < cmd_hnd s"
  shows "cdrom_stream_start sector cnt mode s w =
           (case cdrom_stream_stop False s w of
              None \<Rightarrow> None
            | Some (r, s1, w1) \<Rightarrow> cdrom_stream_start sector cnt mode s1 w1) \<and>
         (\<forall>r s1 w1. cdrom_stream_stop False s w = Some (r, s1, w1) \<longrightarrow>
            cmd_hnd s1 = 0 \<and> stream_mode s1 = - 1 \<and> stream_cb s1 = 0)"
proof -
  have stopped: "\<forall>r s1 w1. cdrom_stream_stop False s w = Some (r, s1, w1) \<longrightarrow>
      cmd_hnd s1 = 0 \<and> stream_mode s1 = - 1 \<and> stream_cb s1 = 0"
    using cdrom_stream_stop_stops [OF assms(2)] by blast
  have "cdrom_stream_start sector cnt mode s w =
      (case cdrom_stream_stop False s w of
         None \<Rightarrow> None
       | Some (r, s1, w1) \<Rightarrow> cdrom_stream_start sector cnt mode s1 w1)"
  proof (cases "cdrom_stream_stop False s w")
    case None
    then show ?thesis using assms(1) by (simp add: cdrom_stream_start_def)
  next
    case (Some x)
    obtain r s1 w1 where x: "x = (r, s1, w1)" by (cases x)
    have off: "stream_mode s1 = - 1" using stopped Some x by blast
    show ?thesis
      using assms(1) Some x off by (simp add: cdrom_stream_start_def)
  qed
  then show ?thesis using stopped by (rule conjI)
qed

lemma restart_stop_run:
  "\<exists>s1 w1. cdrom_stream_stop False pio_stream_state restart_world = Some (ERR_OK, s1, w1) \<and>
     trace w1 = [Exec_server, Check_command 1 STREAMING, Abort_command 1, Timer_ms_gettime64 100,
                 Exec_server, Check_command 1 COMPLETED]"
  by (simp add: cdrom_stream_stop_def stream_stop_loop.simps cdrom_abort_cmd_def
      cdrom_abort_cmd_from_def abort_loop.simps cdrom_stream_set_callback_def expired_def
      pio_stream_state_def restart_world_def silent_world_def initial_state_def no_error_def
      run_defs err_defs resp_defs mode_defs)

lemma restart_run:
  "\<exists>s' w'. cdrom_stream_start 150 16 CDROM_READ_DMA pio_stream_state restart_world =
      Some (ERR_OK, s', w') \<and> cmd_hnd s' = 2 \<and> stream_mode s' = CDROM_READ_DMA \<and>
     trace w' = [Exec_server, Check_command 1 STREAMING, Abort_command 1, Timer_ms_gettime64 100,
                 Exec_server, Check_command 1 COMPLETED,
                 Send_command CMD_DMAREAD_STREAM [150, 16] 2, Exec_server,
                 Check_command 2 STREAMING]"
  by (simp add: cdrom_stream_start_def cdrom_exec_cmd_ex_def exec_wait_def cdrom_req_cmd_def
      req_loop.simps cdrom_poll_cmd_def poll_loop.simps
      cdrom_stream_stop_def stream_stop_loop.simps cdrom_abort_cmd_def
      cdrom_abort_cmd_from_def abort_loop.simps cdrom_stream_set_callback_def expired_def
      pio_stream_state_def restart_world_def silent_world_def initial_state_def no_error_def
      run_defs err_defs resp_defs mode_defs cmd_defs)

theorem cdrom_stream_start_stops_first_witness:
  "\<exists>s1 w1 s' w'. cdrom_stream_stop False pio_stream_state restart_world = Some (ERR_OK, s1, w1) \<and>
     cmd_hnd s1 = 0 \<and> stream_mode s1 = - 1 \<and> stream_cb s1 = 0 \<and>
     cdrom_stream_start 150 16 CDROM_READ_DMA pio_stream_state restart_world =
       cdrom_stream_start 150 16 CDROM_READ_DMA s1 w1 \<and>
     cdrom_stream_start 150 16 CDROM_READ_DMA s1 w1 = Some (ERR_OK, s', w') \<and> cmd_hnd s' = 2"
proof -
  have on: "stream_mode pio_stream_state \<noteq> - 1" and live: "0 < cmd_hnd pio_stream_state"
    by (simp_all add: pio_stream_state_def initial_state_def mode_defs)
  obtain s1 w1 where
    stop: "cdrom_stream_stop False pio_stream_state restart_world = Some (ERR_OK, s1, w1)"
    using restart_stop_run by blast
  obtain s' w' where
    run: "cdrom_stream_start 150 16 CDROM_READ_DMA pio_stream_state restart_world =
      Some (ERR_OK, s', w')" and h: "cmd_hnd s' = 2"
    using restart_run by blast
  note t = cdrom_stream_start_stops_first [OF on live, of 150 16 CDROM_READ_DMA restart_world]
  have eq: "cdrom_stream_start 150 16 CDROM_READ_DMA pio_stream_state restart_world =
      cdrom_stream_start 150 16 CDROM_READ_DMA s1 w1"
    using t stop by simp
  have off: "cmd_hnd s1 = 0 \<and> stream_mode s1 = - 1 \<and> stream_cb s1 = 0"
    using t stop by blast
  have run1: "cdrom_stream_start 150 16 CDROM_READ_DMA s1 w1 = Some (ERR_OK, s', w')"
    using eq run by simp
  show ?thesis using stop off eq run1 h by blast
qed

text \<open>
  \<^verbatim>\<open>cdrom_exec_cmd_ex\<close> on an active stream: the first thing it does is to send the new
  command; the old handle 1 is overwritten, nothing is aborted, and the stream mode is
  still set when it returns.
\<close>

theorem cdrom_exec_cmd_ex_keeps_stream_counterexample:
  "cdrom_stream_start 150 16 CDROM_READ_DMA initial_state two_command_world =
     Some (ERR_OK, dma_stream_state,
           silent_world\<lparr>send_results := [2], check_results := [(COMPLETED, no_error)],
             trace := [Send_command CMD_DMAREAD_STREAM [150, 16] 1, Exec_server,
                       Check_command 1 STREAMING]\<rparr>) \<and>
   0 < cmd_hnd dma_stream_state \<and> stream_mode dma_stream_state \<noteq> - 1 \<and>
   cdrom_exec_cmd_ex CMD_PIOREAD [150, 1, 0x8c010000, 0] 0 False dma_stream_state
       (silent_world\<lparr>send_results := [2], check_results := [(COMPLETED, no_error)],
             trace := [Send_command CMD_DMAREAD_STREAM [150, 16] 1, Exec_server,
                       Check_command 1 STREAMING]\<rparr>) =
     Some (ERR_OK, dma_stream_state\<lparr>cmd_hnd := 0, cmd_response := COMPLETED\<rparr>,
           silent_world\<lparr>trace := [Send_command CMD_DMAREAD_STREAM [150, 16] 1, Exec_server,
                       Check_command 1 STREAMING,
                       Send_command CMD_PIOREAD [150, 1, 0x8c010000, 0] 2, Exec_server,
                       Check_command 2 COMPLETED]\<rparr>) \<and>
   stream_mode (dma_stream_state\<lparr>cmd_hnd := 0, cmd_response := COMPLETED\<rparr>) = CDROM_READ_DMA"
  by (simp add: cdrom_stream_start_def cdrom_exec_cmd_ex_def exec_wait_def cdrom_req_cmd_def
      req_loop.simps cdrom_poll_cmd_def poll_loop.simps
      dma_stream_state_def two_command_world_def silent_world_def initial_state_def no_error_def
      run_defs err_defs resp_defs mode_defs cmd_defs)

end
